theory Spec2Isabelle
  imports Main
begin

section \<open>Storage types\<close>

text \<open>
  The class \<open>xl_brainfuck_env\<close> is a template over the cell type \<open>storage_t\<close>. The
  translator names ten instances when it chooses \<open>DECLTYPE_STR\<close>; every other integral
  type takes the final \<open>else\<close> branch, represented here by \<open>signed char\<close>. Widths are
  those of the platform the header is written for (it includes \<open>conio.h\<close>): \<open>char\<close> is
  signed and 8 bits wide, \<open>short\<close> 16, \<open>int\<close> and \<open>long\<close> 32, \<open>long long\<close> 64.
\<close>

datatype storage_t =
  T_char | T_uchar | T_short | T_ushort | T_int | T_unsigned
  | T_long | T_ulong | T_llong | T_ullong | T_schar

fun bits :: "storage_t \<Rightarrow> nat" where
  "bits T_char = 8"
| "bits T_uchar = 8"
| "bits T_short = 16"
| "bits T_ushort = 16"
| "bits T_int = 32"
| "bits T_unsigned = 32"
| "bits T_long = 32"
| "bits T_ulong = 32"
| "bits T_llong = 64"
| "bits T_ullong = 64"
| "bits T_schar = 8"

fun is_signed :: "storage_t \<Rightarrow> bool" where
  "is_signed T_uchar = False"
| "is_signed T_ushort = False"
| "is_signed T_unsigned = False"
| "is_signed T_ulong = False"
| "is_signed T_ullong = False"
| "is_signed t = True"

text \<open>
  A value of type \<open>t\<close> is an integer in the range of \<open>t\<close>. \<open>wrap t\<close> is the conversion to
  \<open>t\<close>: modulo \<open>2 ^ bits t\<close>, read as two's complement when \<open>t\<close> is signed. Increment
  and decrement of a cell, and of the translator's run totals, are \<open>wrap t (v + 1)\<close> and
  \<open>wrap t (v - 1)\<close>: the natural overflow behaviour of the width, which is also what the
  signed types do on this platform although C++ leaves it undefined for \<open>int\<close> and wider.
\<close>

definition wrap :: "storage_t \<Rightarrow> int \<Rightarrow> int" where
  "wrap t v =
     (if is_signed t
      then (v + 2 ^ (bits t - 1)) mod 2 ^ bits t - 2 ^ (bits t - 1)
      else v mod 2 ^ bits t)"

section \<open>The C library: formatted output\<close>

definition digit_char :: "nat \<Rightarrow> char" where
  "digit_char d = ''0123456789'' ! d"

fun dec_nat :: "nat \<Rightarrow> string" where
  "dec_nat n = (if n < 10 then [digit_char n] else dec_nat (n div 10) @ [digit_char (n mod 10)])"

declare dec_nat.simps [simp del]

definition dec_int :: "int \<Rightarrow> string" where
  "dec_int v = (if v < 0 then CHR ''-'' # dec_nat (nat (- v)) else dec_nat (nat v))"

text \<open>
  \<open>printf("%d", v)\<close> reads an \<open>int\<close>. An argument narrower than \<open>int\<close> is promoted and
  arrives unchanged; of a wider or unsigned argument the low 32 bits are read as a
  signed \<open>int\<close>.
\<close>

definition printf_d :: "int \<Rightarrow> string" where
  "printf_d v = dec_int (wrap T_int v)"

text \<open>\<open>printf("%c", v)\<close> writes the byte \<open>v mod 256\<close>.\<close>

definition printf_c :: "int \<Rightarrow> string" where
  "printf_c v = [char_of v]"

section \<open>The environment\<close>

text \<open>
  The tape is the block of cells that \<open>calloc\<close> returned. Pointers into it are modelled
  by their index relative to the first cell, so \<open>minaddr\<close> is 0 and \<open>maxaddr\<close> is the
  number of cells minus 1; both are fixed by the constructor and never assigned again.
  \<open>ptr\<close> is an integer: \<open>>\<close> and \<open><\<close> may move it off the tape on either side.
\<close>

record xl_brainfuck_env =
  tape :: "int list"
  ptr :: int

definition minaddr :: "xl_brainfuck_env \<Rightarrow> int" where
  "minaddr e = 0"

definition maxaddr :: "xl_brainfuck_env \<Rightarrow> int" where
  "maxaddr e = int (length (tape e)) - 1"

text \<open>
  The constructor, where \<open>calloc\<close> grants the block: \<open>tapesize\<close> zeroed cells, the pointer
  on the first one. The constructor uses the result of \<open>calloc\<close> unchecked; a capacity
  that \<open>calloc\<close> refuses leaves an object without a tape, which this function does not
  describe.
\<close>

definition new_env :: "nat \<Rightarrow> xl_brainfuck_env" where
  "new_env tapesize = \<lparr>tape = replicate tapesize 0, ptr = 0\<rparr>"

definition ptroutofrange :: "xl_brainfuck_env \<Rightarrow> bool" where
  "ptroutofrange e = (ptr e < minaddr e \<or> ptr e > maxaddr e)"

text \<open>
  Dereferencing \<open>ptr\<close>. A dereference outside the allocated block has no defined
  behaviour in C++; the model makes it visible as \<open>None\<close>.
\<close>

definition load :: "xl_brainfuck_env \<Rightarrow> int option" where
  "load e =
     (if 0 \<le> ptr e \<and> ptr e < int (length (tape e))
      then Some (tape e ! nat (ptr e)) else None)"

definition store :: "xl_brainfuck_env \<Rightarrow> int \<Rightarrow> xl_brainfuck_env option" where
  "store e v =
     (if 0 \<le> ptr e \<and> ptr e < int (length (tape e))
      then Some (e\<lparr>tape := (tape e)[nat (ptr e) := v]\<rparr>) else None)"

text \<open>\<open>reset\<close>: the loop over \<open>resetptr\<close> from \<open>minaddr\<close> to \<open>maxaddr\<close>, then the pointer.\<close>

function reset_loop :: "xl_brainfuck_env \<Rightarrow> int \<Rightarrow> xl_brainfuck_env" where
  "reset_loop e resetptr =
     (if resetptr \<le> maxaddr e
      then reset_loop (e\<lparr>tape := (tape e)[nat resetptr := 0]\<rparr>) (resetptr + 1)
      else e)"
  by pat_completeness auto
termination
  by (relation "measure (\<lambda>(e, resetptr). nat (maxaddr e + 1 - resetptr))")
     (auto simp: maxaddr_def)

declare reset_loop.simps [simp del]

definition reset :: "xl_brainfuck_env \<Rightarrow> xl_brainfuck_env" where
  "reset e = (let e' = reset_loop e (minaddr e) in e'\<lparr>ptr := minaddr e'\<rparr>)"

section \<open>The console\<close>

text \<open>
  What \<open>interpret\<close> does to the outside: the characters written to standard output so
  far, and the number of input units taken from \<open>_getch\<close>. The input source is a
  function from the number of units already read to the next unit.
\<close>

record console =
  screen :: string
  keys_read :: nat

definition print :: "string \<Rightarrow> console \<Rightarrow> console" where
  "print s con = con\<lparr>screen := screen con @ s\<rparr>"

section \<open>The interpreter\<close>

datatype intent = Read_intent | Write_intent

datatype bracket = Missing_close | Missing_open

datatype error = AccessViolation intent | SyntaxError bracket

fun diagnostic :: "error \<Rightarrow> string" where
  "diagnostic (AccessViolation Write_intent) =
     ''Access violation: attempt to write to an out-of-range address.''"
| "diagnostic (AccessViolation Read_intent) =
     ''Access violation: attempt to read from an out-of-range address.''"
| "diagnostic (SyntaxError Missing_close) =
     ''Syntax error: unenclosed loop detected. Missing ']'.''"
| "diagnostic (SyntaxError Missing_open) =
     ''Syntax error: unenclosed loop detected. Missing '['.''"

text \<open>
  The instruction stream is the sequence of characters before the terminating NUL of
  the C string, and \<open>codeptr\<close> is an index into it.

  \<open>unsolvedloopcount\<close> is an \<open>unsigned\<close>: 32 bits, wrapping.
\<close>

definition incr_u32 :: "nat \<Rightarrow> nat" where
  "incr_u32 c = (c + 1) mod 4294967296"

definition decr_u32 :: "nat \<Rightarrow> nat" where
  "decr_u32 c = (c + 4294967295) mod 4294967296"

text \<open>
  The search loop of the \<open>[\<close> case, from \<open>codesearchptr\<close> with the current count:
  the index of the \<open>]\<close> at which the count reaches 0, or \<open>None\<close> when the end of the
  stream comes first.
\<close>

function forward_search :: "string \<Rightarrow> nat \<Rightarrow> nat \<Rightarrow> nat option" where
  "forward_search code codesearchptr unsolvedloopcount =
     (if codesearchptr < length code then
        (if code ! codesearchptr = CHR ''[''
         then forward_search code (codesearchptr + 1) (incr_u32 unsolvedloopcount)
         else if code ! codesearchptr = CHR '']''
         then (if decr_u32 unsolvedloopcount = 0 then Some codesearchptr
               else forward_search code (codesearchptr + 1) (decr_u32 unsolvedloopcount))
         else forward_search code (codesearchptr + 1) unsolvedloopcount)
      else None)"
  by pat_completeness auto
termination
  by (relation "measure (\<lambda>(code, codesearchptr, c). length code - codesearchptr)") auto

declare forward_search.simps [simp del]

text \<open>
  The search loop of the \<open>]\<close> case. The first argument after the stream is the number of
  characters not yet examined, that is \<open>codesearchptr + 1\<close>: the loop ends without a
  match when \<open>codesearchptr\<close> drops below the start of the stream.
\<close>

fun backward_search :: "string \<Rightarrow> nat \<Rightarrow> nat \<Rightarrow> nat option" where
  "backward_search code 0 unsolvedloopcount = None"
| "backward_search code (Suc codesearchptr) unsolvedloopcount =
     (if code ! codesearchptr = CHR '']''
      then backward_search code codesearchptr (incr_u32 unsolvedloopcount)
      else if code ! codesearchptr = CHR ''[''
      then (if decr_u32 unsolvedloopcount = 0 then Some codesearchptr
            else backward_search code codesearchptr (decr_u32 unsolvedloopcount))
      else backward_search code codesearchptr unsolvedloopcount)"

text \<open>
  One pass through the body of the \<open>while\<close> loop of \<open>interpret\<close>, at \<open>codeptr\<close> inside
  the stream. It continues at a new \<open>codeptr\<close>, or returns 1 after printing a
  diagnostic (\<open>Halt\<close>), or dereferences \<open>ptr\<close> off the tape (\<open>Fault\<close>).
\<close>

datatype outcome =
  Continue xl_brainfuck_env console nat
  | Halt error xl_brainfuck_env console
  | Fault

definition halt :: "error \<Rightarrow> xl_brainfuck_env \<Rightarrow> console \<Rightarrow> outcome" where
  "halt err e con = Halt err e (print (diagnostic err) con)"

definition step ::
  "storage_t \<Rightarrow> (nat \<Rightarrow> int) \<Rightarrow> string \<Rightarrow> xl_brainfuck_env \<Rightarrow> console \<Rightarrow> nat \<Rightarrow> outcome" where
  "step t getch code e con codeptr =
     (let c = code ! codeptr in
      if c = CHR ''>'' then Continue (e\<lparr>ptr := ptr e + 1\<rparr>) con (codeptr + 1)
      else if c = CHR ''<'' then Continue (e\<lparr>ptr := ptr e - 1\<rparr>) con (codeptr + 1)
      else if c = CHR ''+'' then
        (if ptroutofrange e then halt (AccessViolation Write_intent) e con
         else case load e of None \<Rightarrow> Fault
           | Some v \<Rightarrow>
               (case store e (wrap t (v + 1)) of None \<Rightarrow> Fault
                | Some e' \<Rightarrow> Continue e' con (codeptr + 1)))
      else if c = CHR ''-'' then
        (if ptroutofrange e then halt (AccessViolation Write_intent) e con
         else case load e of None \<Rightarrow> Fault
           | Some v \<Rightarrow>
               (case store e (wrap t (v - 1)) of None \<Rightarrow> Fault
                | Some e' \<Rightarrow> Continue e' con (codeptr + 1)))
      else if c = CHR ''.'' then
        (if ptroutofrange e then halt (AccessViolation Read_intent) e con
         else case load e of None \<Rightarrow> Fault
           | Some v \<Rightarrow> Continue e (print (printf_c v) con) (codeptr + 1))
      else if c = CHR '':'' then
        (if ptroutofrange e then halt (AccessViolation Read_intent) e con
         else case load e of None \<Rightarrow> Fault
           | Some v \<Rightarrow> Continue e (print (printf_d v) con) (codeptr + 1))
      else if c = CHR '','' then
        (if ptroutofrange e then halt (AccessViolation Write_intent) e con
         else case store e (wrap t (getch (keys_read con))) of None \<Rightarrow> Fault
           | Some e' \<Rightarrow> Continue e' (con\<lparr>keys_read := keys_read con + 1\<rparr>) (codeptr + 1))
      else if c = CHR ''['' then
        (if ptroutofrange e then halt (AccessViolation Read_intent) e con
         else case forward_search code (codeptr + 1) 1 of
             None \<Rightarrow> halt (SyntaxError Missing_close) e con
           | Some codesearchptr \<Rightarrow>
               (case load e of None \<Rightarrow> Fault
                | Some v \<Rightarrow>
                    if v = 0 then Continue e con (codesearchptr + 1)
                    else Continue e con (codeptr + 1)))
      else if c = CHR '']'' then
        (case backward_search code codeptr 1 of
           None \<Rightarrow> halt (SyntaxError Missing_open) e con
         | Some codesearchptr \<Rightarrow> Continue e con codesearchptr)
      else Continue e con (codeptr + 1))"

text \<open>
  The \<open>while\<close> loop of \<open>interpret\<close>. A stream such as \<open>+[]\<close> never leaves it, so the
  loop is run with a bound on the number of passes; \<open>None\<close> means the bound was reached
  before the loop ended.
\<close>

datatype verdict = Success | Failure error | Undefined

text \<open>The value \<open>interpret\<close> returns; an undefined execution returns nothing definite.\<close>

fun status :: "verdict \<Rightarrow> int option" where
  "status Success = Some 0"
| "status (Failure err) = Some 1"
| "status Undefined = None"

fun run ::
  "nat \<Rightarrow> storage_t \<Rightarrow> (nat \<Rightarrow> int) \<Rightarrow> string \<Rightarrow> xl_brainfuck_env \<Rightarrow> console \<Rightarrow> nat
    \<Rightarrow> (verdict \<times> xl_brainfuck_env \<times> console) option" where
  "run 0 t getch code e con codeptr = None"
| "run (Suc n) t getch code e con codeptr =
     (if codeptr < length code then
        (case step t getch code e con codeptr of
           Continue e' con' codeptr' \<Rightarrow> run n t getch code e' con' codeptr'
         | Halt err e' con' \<Rightarrow> Some (Failure err, e', con')
         | Fault \<Rightarrow> Some (Undefined, e, con))
      else Some (Success, e, con))"

text \<open>\<open>interpret\<close>, named \<open>interpret_code\<close> here because Isabelle reserves the word.\<close>

definition interpret_code ::
  "nat \<Rightarrow> storage_t \<Rightarrow> (nat \<Rightarrow> int) \<Rightarrow> string \<Rightarrow> xl_brainfuck_env \<Rightarrow> console
    \<Rightarrow> (verdict \<times> xl_brainfuck_env \<times> console) option" where
  "interpret_code n t getch code e con = run n t getch code e con 0"

section \<open>The translator\<close>

fun decltype_str :: "storage_t \<Rightarrow> string" where
  "decltype_str T_char = ''char''"
| "decltype_str T_uchar = ''unsigned char''"
| "decltype_str T_short = ''short''"
| "decltype_str T_ushort = ''unsigned short''"
| "decltype_str T_int = ''int''"
| "decltype_str T_unsigned = ''unsigned''"
| "decltype_str T_long = ''long''"
| "decltype_str T_ulong = ''unsigned long''"
| "decltype_str T_llong = ''long long''"
| "decltype_str T_ullong = ''unsigned long long''"
| "decltype_str T_schar = ''char''"

text \<open>
  The state of a call of \<open>translate\<close>: the object it is called on, the text written to
  the target buffer so far (each \<open>sprintf\<close> is followed by \<open>gotoend\<close>, so \<open>cptr\<close> is
  always the end of that text), the indentation level and the index \<open>bfptr\<close> into the
  source. \<open>indentlevel\<close> is an \<open>int\<close>; its overflow is undefined in C++ and out of
  reach of a stream shorter than \<open>2 ^ 31\<close> characters, so it is an integer here.
\<close>

record tstate =
  self :: xl_brainfuck_env
  ccode :: string
  indentlevel :: int
  bfptr :: nat

definition emit :: "string \<Rightarrow> tstate \<Rightarrow> tstate" where
  "emit s st = st\<lparr>ccode := ccode st @ s\<rparr>"

text \<open>The loop \<open>for (int i = 0; i < indentlevel; i++)\<close> that writes one tab per level.\<close>

function tabs_loop :: "int \<Rightarrow> int \<Rightarrow> string \<Rightarrow> string" where
  "tabs_loop i lvl cptr =
     (if i < lvl then tabs_loop (i + 1) lvl (cptr @ [CHR 0x09]) else cptr)"
  by pat_completeness auto
termination
  by (relation "measure (\<lambda>(i, lvl, cptr). nat (lvl - i))") auto

declare tabs_loop.simps [simp del]

definition indent :: "tstate \<Rightarrow> tstate" where
  "indent st = st\<lparr>ccode := tabs_loop 0 (indentlevel st) (ccode st)\<rparr>"

text \<open>
  The two collation loops, over \<open>>\<close>/\<open><\<close> and over \<open>+\<close>/\<open>-\<close>, differ in their two
  characters only. The running total is a \<open>storage_t\<close> in both; the result is the total
  and the index \<open>bfsearchptr\<close> of the first character that is not part of the run.
\<close>

function collate :: "storage_t \<Rightarrow> char \<Rightarrow> char \<Rightarrow> string \<Rightarrow> nat \<Rightarrow> int \<Rightarrow> int \<times> nat" where
  "collate t up down bfcode bfsearchptr totl =
     (if bfsearchptr < length bfcode \<and> bfcode ! bfsearchptr = up
      then collate t up down bfcode (bfsearchptr + 1) (wrap t (totl + 1))
      else if bfsearchptr < length bfcode \<and> bfcode ! bfsearchptr = down
      then collate t up down bfcode (bfsearchptr + 1) (wrap t (totl - 1))
      else (totl, bfsearchptr))"
  by pat_completeness auto
termination
  by (relation "measure (\<lambda>(t, up, down, bfcode, bfsearchptr, totl). length bfcode - bfsearchptr)")
     auto

declare collate.simps [simp del]

definition collate_offset :: "storage_t \<Rightarrow> string \<Rightarrow> nat \<Rightarrow> int \<times> nat" where
  "collate_offset t bfcode bfptr0 = collate t (CHR ''>'') (CHR ''<'') bfcode bfptr0 0"

definition collate_change :: "storage_t \<Rightarrow> string \<Rightarrow> nat \<Rightarrow> int \<times> nat" where
  "collate_change t bfcode bfptr0 = collate t (CHR ''+'') (CHR ''-'') bfcode bfptr0 0"

text \<open>
  The statement written for a run. The totals are compared in their own type. Negation
  for the \<open>-=\<close> forms happens after integral promotion, and \<open>%d\<close> reads the low 32 bits
  of what it is given, which \<open>printf_d\<close> accounts for.
\<close>

definition offset_stmt :: "int \<Rightarrow> string" where
  "offset_stmt totaloffset =
     (if totaloffset > 0 then
        (if totaloffset = 1 then ''i++;''
         else ''i += '' @ printf_d totaloffset @ '';'')
      else if totaloffset < 0 then
        (if totaloffset = - 1 then ''i--;''
         else ''i -= '' @ printf_d (- totaloffset) @ '';'')
      else [])"

definition change_stmt :: "int \<Rightarrow> string" where
  "change_stmt totalchange =
     (if totalchange > 0 then
        (if totalchange = 1 then ''tape[i]++;\<newline>''
         else ''tape[i] += '' @ printf_d totalchange @ '';\<newline>'')
      else if totalchange < 0 then
        (if totalchange = - 1 then ''tape[i]--;\<newline>''
         else ''tape[i] -= '' @ printf_d (- totalchange) @ '';\<newline>'')
      else [])"

text \<open>
  The line written for \<open>.\<close> is copied with \<open>strcpy\<close>, not formatted with \<open>sprintf\<close>, so
  both percent signs of the literal reach the target buffer.
\<close>

definition putchar_stmt :: string where
  "putchar_stmt = ''printf('' @ [CHR 0x22] @ ''%%c'' @ [CHR 0x22] @ '', tape[i]);\<newline>''"

text \<open>One pass through the body of the translation loop, at \<open>bfptr\<close> inside the source.\<close>

definition translate_char :: "storage_t \<Rightarrow> string \<Rightarrow> tstate \<Rightarrow> tstate" where
  "translate_char t bfcode st =
     (let c = bfcode ! bfptr st in
      if c = CHR ''>'' \<or> c = CHR ''<'' then
        (let (totaloffset, bfsearchptr) = collate_offset t bfcode (bfptr st);
             st1 = emit (offset_stmt totaloffset) (indent st);
             st2 = (if bfsearchptr < length bfcode \<and>
                       (bfcode ! bfsearchptr = CHR ''+'' \<or> bfcode ! bfsearchptr = CHR ''-'')
                    then emit '' '' st1 else emit ''\<newline>'' st1)
         in st2\<lparr>bfptr := bfsearchptr\<rparr>)
      else if c = CHR ''+'' \<or> c = CHR ''-'' then
        (let (totalchange, bfsearchptr) = collate_change t bfcode (bfptr st);
             st1 = (if bfptr st = 0 \<or>
                       (bfcode ! (bfptr st - 1) \<noteq> CHR ''>'' \<and> bfcode ! (bfptr st - 1) \<noteq> CHR ''<'')
                    then indent st else st);
             st2 = emit (change_stmt totalchange) st1
         in st2\<lparr>bfptr := bfsearchptr\<rparr>)
      else if c = CHR ''.'' then
        (emit putchar_stmt (indent st))\<lparr>bfptr := bfptr st + 1\<rparr>
      else if c = CHR '','' then
        (emit ''tape[i] = _getch();\<newline>'' (indent st))\<lparr>bfptr := bfptr st + 1\<rparr>
      else if c = CHR ''['' then
        (emit ''while (tape[i] != 0) {\<newline>'' (indent st))
          \<lparr>indentlevel := indentlevel st + 1, bfptr := bfptr st + 1\<rparr>
      else if c = CHR '']'' then
        (emit ''}\<newline>'' (indent (st\<lparr>indentlevel := indentlevel st - 1\<rparr>)))
          \<lparr>bfptr := bfptr st + 1\<rparr>
      else st\<lparr>bfptr := bfptr st + 1\<rparr>)"

lemma collate_bfsearchptr_ge: "k \<le> snd (collate t up down bfcode k v)"
proof (induction t up down bfcode k v rule: collate.induct)
  case (1 t up down bfcode k v)
  show ?case
    using "1.IH" by (subst collate.simps) (auto simp del: collate.simps)
qed

lemma collate_bfsearchptr_gt:
  assumes "k < length bfcode" and "bfcode ! k = up \<or> bfcode ! k = down"
  shows "k < snd (collate t up down bfcode k v)"
proof -
  have "Suc k \<le> snd (collate t up down bfcode (k + 1) w)" for w
    using collate_bfsearchptr_ge [of "k + 1" t up down bfcode w] by simp
  then show ?thesis
    using assms by (subst collate.simps) (auto simp: less_eq_Suc_le)
qed

lemma collate_bfsearchptr_le:
  "k \<le> length bfcode \<Longrightarrow> snd (collate t up down bfcode k v) \<le> length bfcode"
proof (induction t up down bfcode k v rule: collate.induct)
  case (1 t up down bfcode k v)
  show ?case
    using "1.IH" "1.prems" by (subst collate.simps) auto
qed

lemma bfptr_emit [simp]: "bfptr (emit s st) = bfptr st"
  by (simp add: emit_def)

lemma bfptr_indent [simp]: "bfptr (indent st) = bfptr st"
  by (simp add: indent_def)

lemma translate_char_advances:
  assumes "bfptr st < length bfcode"
  shows "bfptr st < bfptr (translate_char t bfcode st)"
proof -
  have "bfptr st < snd (collate_offset t bfcode (bfptr st))"
    if "bfcode ! bfptr st = CHR ''>'' \<or> bfcode ! bfptr st = CHR ''<''"
    unfolding collate_offset_def using assms that by (rule collate_bfsearchptr_gt)
  moreover have "bfptr st < snd (collate_change t bfcode (bfptr st))"
    if "bfcode ! bfptr st = CHR ''+'' \<or> bfcode ! bfptr st = CHR ''-''"
    unfolding collate_change_def using assms that by (rule collate_bfsearchptr_gt)
  ultimately show ?thesis
    by (auto simp: translate_char_def Let_def split: prod.splits)
qed

text \<open>The translation loop: \<open>while (*bfptr != 0)\<close>.\<close>

function translate_loop :: "storage_t \<Rightarrow> string \<Rightarrow> tstate \<Rightarrow> tstate" where
  "translate_loop t bfcode st =
     (if bfptr st < length bfcode
      then translate_loop t bfcode (translate_char t bfcode st)
      else st)"
  by pat_completeness auto
termination
  by (relation "measure (\<lambda>(t, bfcode, st). length bfcode - bfptr st)")
     (auto intro: diff_less_mono2 translate_char_advances)

declare translate_loop.simps [simp del]

text \<open>The text before the loop: the inclusions and the head of \<open>main\<close>.\<close>

definition prologue :: "storage_t \<Rightarrow> tstate \<Rightarrow> tstate" where
  "prologue t st0 =
     (let st1 = emit ''#include <stdio.h>\<newline>'' st0;
          st2 = emit ''#include <stdlib.h>\<newline>'' st1;
          st3 = emit ''#include <stddef.h>\<newline>'' st2;
          st4 = emit (''#include '' @ [CHR 0x22] @ ''conio.h'' @ [CHR 0x22] @ ''\<newline>'') st3;
          st5 = emit ''\<newline>'' st4;
          st6 = st5\<lparr>indentlevel := 0\<rparr>;
          st7 = emit ''int main() {\<newline>'' (indent st6);
          st8 = st7\<lparr>indentlevel := indentlevel st7 + 1\<rparr>;
          st9 = emit ''\<newline>'' (indent st8);
          st10 = emit (decltype_str t @ '' *tape = ('' @ decltype_str t @ '' *)calloc(''
                   @ printf_d (maxaddr (self st9) - minaddr (self st9) + 1)
                   @ '', sizeof('' @ decltype_str t @ ''));\<newline>'') (indent st9);
          st11 = emit ''ptrdiff_t i = 0;\<newline>'' (indent st10)
      in emit ''\<newline>'' st11)"

text \<open>The text after the loop, with the last decrement of \<open>indentlevel\<close>.\<close>

definition epilogue :: "tstate \<Rightarrow> tstate" where
  "epilogue st0 =
     (let st1 = emit ''\<newline>'' (indent st0);
          st2 = emit ''free(tape);\<newline>'' (indent st1);
          st3 = emit ''_getch();\<newline>'' (indent st2);
          st4 = emit ''\<newline>'' (indent st3);
          st5 = emit ''return 0;\<newline>'' (indent st4);
          st6 = emit ''\<newline>'' (indent st5);
          st7 = st6\<lparr>indentlevel := indentlevel st6 - 1\<rparr>
      in emit ''}\<newline>'' (indent st7))"

text \<open>
  \<open>translate\<close>, as a state transformer of the object it is called on: it returns the
  text in the target buffer, the value returned to the caller, and the object. The
  text is written from the start of the buffer.
\<close>

definition translate_final :: "storage_t \<Rightarrow> string \<Rightarrow> xl_brainfuck_env \<Rightarrow> tstate" where
  "translate_final t bfcode e =
     epilogue (translate_loop t bfcode
       (prologue t \<lparr>self = e, ccode = [], indentlevel = 0, bfptr = 0\<rparr>))"

definition translate ::
  "storage_t \<Rightarrow> string \<Rightarrow> xl_brainfuck_env \<Rightarrow> (string \<times> int) \<times> xl_brainfuck_env" where
  "translate t bfcode e =
     (let st = translate_final t bfcode e
      in ((ccode st, if indentlevel st = 0 then 0 else 1), self st))"

section \<open>The translator program\<close>

text \<open>
  \<open>main\<close> of the translator application, from its entry to the construction of the
  environment: \<open>argc\<close>, and the value \<open>strtol\<close> returns for the first argument. An
  early return gives the exit code and the text written to the error stream; otherwise
  the environment is constructed with \<open>memsize\<close> cells (whether or not the two files
  could be opened: a failed \<open>fopen\<close> is reported but does not end the program).
\<close>

definition translator_main_setup :: "int \<Rightarrow> int \<Rightarrow> (int \<times> string) + xl_brainfuck_env" where
  "translator_main_setup argc memsize =
     (if argc \<noteq> 4 then
        Inl (1, ''You must specify the size of memory allocated to the brainfuck environment, the brainfuck source file, and the C destination file.\<newline>''
              @ ''Follow this format in command line: xlbftranslator memsize bfsrc cdest.\<newline>'')
      else if memsize \<le> 0 then
        Inl (1, ''You must supply a valid positive integer for the size of memory allocated.\<newline>'')
      else Inr (new_env (nat memsize)))"

section \<open>Notions used to state the properties\<close>

text \<open>
  The configuration after exactly \<open>k\<close> instructions have been executed without a
  halt, if that many are executed.
\<close>

fun executed ::
  "nat \<Rightarrow> storage_t \<Rightarrow> (nat \<Rightarrow> int) \<Rightarrow> string \<Rightarrow> xl_brainfuck_env \<Rightarrow> console \<Rightarrow> nat
    \<Rightarrow> (xl_brainfuck_env \<times> console \<times> nat) option" where
  "executed 0 t getch code e con codeptr = Some (e, con, codeptr)"
| "executed (Suc k) t getch code e con codeptr =
     (if codeptr < length code then
        (case step t getch code e con codeptr of
           Continue e' con' codeptr' \<Rightarrow> executed k t getch code e' con' codeptr'
         | Halt err e' con' \<Rightarrow> None
         | Fault \<Rightarrow> None)
      else None)"

text \<open>The instructions whose case in \<open>interpret\<close> dereferences \<open>ptr\<close>.\<close>

definition accesses_cell :: "char \<Rightarrow> bool" where
  "accesses_cell c = (c \<in> set ''+-.:,['')"

text \<open>
  The Loop Matcher as the specification words it. Forward search: starting just after
  \<open>open_index\<close>, scan forward with a depth counter that starts at 1; each \<open>[\<close>
  increments it, each \<open>]\<close> decrements it; the index where the depth reaches 0 is the
  match, and reaching the end of the stream first is an error. The depth is an
  unbounded natural number here. \<open>scan_forward\<close> takes the characters still to be
  scanned, the index of the first of them, and the depth.
\<close>

fun scan_forward :: "string \<Rightarrow> nat \<Rightarrow> nat \<Rightarrow> nat option" where
  "scan_forward [] i depth = None"
| "scan_forward (c # cs) i depth =
     (if c = CHR ''['' then scan_forward cs (i + 1) (depth + 1)
      else if c = CHR '']'' then
        (if depth = 1 then Some i else scan_forward cs (i + 1) (depth - 1))
      else scan_forward cs (i + 1) depth)"

definition find_forward_match :: "string \<Rightarrow> nat \<Rightarrow> nat option" where
  "find_forward_match stream open_index =
     scan_forward (drop (open_index + 1) stream) (open_index + 1) 1"



text \<open>The number of \<open>[\<close> minus the number of \<open>]\<close> in a stream.\<close>

definition net_depth :: "string \<Rightarrow> int" where
  "net_depth stream = int (count_list stream (CHR ''['')) - int (count_list stream (CHR '']''))"

text \<open>
  The match of a \<open>[\<close>, said without a scan. \<open>depth_forward stream open_index k\<close> is
  the depth after the characters from just after \<open>open_index\<close> up to and including
  \<open>k\<close>: 1, plus the \<open>[\<close> among them, minus the \<open>]\<close>. The match is the first index after
  \<open>open_index\<close> at which that depth is 0.
\<close>

definition depth_forward :: "string \<Rightarrow> nat \<Rightarrow> nat \<Rightarrow> int" where
  "depth_forward stream open_index k = 1 + net_depth (take (k - open_index) (drop (open_index + 1) stream))"

definition is_forward_match :: "string \<Rightarrow> nat \<Rightarrow> nat \<Rightarrow> bool" where
  "is_forward_match stream open_index m \<longleftrightarrow>
     open_index < m \<and> m < length stream \<and> depth_forward stream open_index m = 0
     \<and> (\<forall>k. open_index < k \<and> k < m \<longrightarrow> 0 < depth_forward stream open_index k)"



text \<open>
  The C library's \<open>printf\<close> on a format string and its arguments, for the conversions
  that occur in a translated program: \<open>%%\<close> writes one percent sign, \<open>%c\<close> and \<open>%d\<close>
  consume one argument each.
\<close>

fun c_printf :: "string \<Rightarrow> int list \<Rightarrow> string" where
  "c_printf [] args = []"
| "c_printf [c] args = [c]"
| "c_printf (c # d # fmt) args =
     (if c = CHR ''%'' then
        (if d = CHR ''%'' then CHR ''%'' # c_printf fmt args
         else if d = CHR ''c'' then
           (case args of [] \<Rightarrow> [] | a # rest \<Rightarrow> printf_c a @ c_printf fmt rest)
         else if d = CHR ''d'' then
           (case args of [] \<Rightarrow> [] | a # rest \<Rightarrow> printf_d a @ c_printf fmt rest)
         else c_printf fmt args)
      else c # c_printf (d # fmt) args)"

text \<open>
  The C file. The translator program writes the target buffer with
  \<open>fprintf(cdestfp, ccodebuffer)\<close>: the buffer is the format string and there are no
  arguments, so the \<open>%%\<close> that \<open>translate\<close> wrote for \<open>.\<close> reaches the file as \<open>%\<close>.
\<close>

definition fprintf_ccode :: "string \<Rightarrow> string" where
  "fprintf_ccode ccodebuffer = c_printf ccodebuffer []"

text \<open>
  Reading the C file back as the statements of the translated program. The text is cut
  at line ends and at semicolons and leading tabs and spaces are dropped. What remains
  is one of the statement forms \<open>translate\<close> writes, with its number read in decimal, or
  else a line that declares or includes, which is passed over: the tape and the index
  start as the declarations set them, all cells 0 and \<open>i = 0\<close>.
\<close>

fun split_on :: "char \<Rightarrow> string \<Rightarrow> string list" where
  "split_on sep [] = [[]]"
| "split_on sep (c # cs) =
     (if c = sep then [] # split_on sep cs
      else (case split_on sep cs of [] \<Rightarrow> [[c]] | w # ws \<Rightarrow> (c # w) # ws))"

definition strip_blanks :: "string \<Rightarrow> string" where
  "strip_blanks s = dropWhile (\<lambda>c. c = CHR 0x09 \<or> c = CHR '' '') s"

definition digit_value :: "char \<Rightarrow> nat option" where
  "digit_value c = map_of (zip ''0123456789'' [0..<10]) c"

fun read_nat :: "string \<Rightarrow> nat \<Rightarrow> nat option" where
  "read_nat [] acc = Some acc"
| "read_nat (c # cs) acc =
     (case digit_value c of None \<Rightarrow> None | Some d \<Rightarrow> read_nat cs (10 * acc + d))"

definition read_int :: "string \<Rightarrow> int option" where
  "read_int s =
     (case s of
        [] \<Rightarrow> None
      | c # cs \<Rightarrow>
          if c = CHR ''-'' then (if cs = [] then None else map_option (\<lambda>n. - int n) (read_nat cs 0))
          else map_option int (read_nat s 0))"

datatype cstmt =
  Main_open | Idx_add int | Cell_add int | Printf_cell string | Getch_cell | Getch_wait
  | While_open | Block_close | Return_stmt

definition starts_with :: "string \<Rightarrow> string \<Rightarrow> bool" where
  "starts_with p s = (take (length p) s = p)"

definition ends_with :: "string \<Rightarrow> string \<Rightarrow> bool" where
  "ends_with p s = (length p \<le> length s \<and> drop (length s - length p) s = p)"

definition printf_open :: string where
  "printf_open = ''printf('' @ [CHR 0x22]"

definition printf_close :: string where
  "printf_close = [CHR 0x22] @ '', tape[i])''"

definition read_stmt :: "string \<Rightarrow> cstmt option" where
  "read_stmt s =
     (if s = ''int main() {'' then Some Main_open
      else if s = ''i++'' then Some (Idx_add 1)
      else if s = ''i--'' then Some (Idx_add (- 1))
      else if starts_with ''i += '' s then map_option Idx_add (read_int (drop 5 s))
      else if starts_with ''i -= '' s then map_option (\<lambda>k. Idx_add (- k)) (read_int (drop 5 s))
      else if s = ''tape[i]++'' then Some (Cell_add 1)
      else if s = ''tape[i]--'' then Some (Cell_add (- 1))
      else if starts_with ''tape[i] += '' s then map_option Cell_add (read_int (drop 11 s))
      else if starts_with ''tape[i] -= '' s then map_option (\<lambda>k. Cell_add (- k)) (read_int (drop 11 s))
      else if starts_with printf_open s \<and> ends_with printf_close (drop (length printf_open) s)
        then Some (Printf_cell
          (take (length s - length printf_open - length printf_close) (drop (length printf_open) s)))
      else if s = ''tape[i] = _getch()'' then Some Getch_cell
      else if s = ''_getch()'' then Some Getch_wait
      else if s = ''while (tape[i] != 0) {'' then Some While_open
      else if s = ''}'' then Some Block_close
      else if s = ''return 0'' then Some Return_stmt
      else None)"

definition c_statements :: "string \<Rightarrow> cstmt list" where
  "c_statements text =
     List.map_filter read_stmt
       (map strip_blanks (concat (map (split_on (CHR '';'')) (split_on (CHR 0x0A) text))))"

text \<open>
  Blocks of the translated program: the closing brace that ends the block opened just
  before a position, and the opening statement of the block that a closing brace ends.
\<close>

definition opens_block :: "cstmt \<Rightarrow> bool" where
  "opens_block s = (s = While_open \<or> s = Main_open)"

fun block_end :: "cstmt list \<Rightarrow> nat \<Rightarrow> nat \<Rightarrow> nat option" where
  "block_end [] i depth = None"
| "block_end (s # ss) i depth =
     (if opens_block s then block_end ss (i + 1) (depth + 1)
      else if s = Block_close then
        (if depth = 1 then Some i else block_end ss (i + 1) (depth - 1))
      else block_end ss (i + 1) depth)"

fun block_start :: "cstmt list \<Rightarrow> nat \<Rightarrow> nat option" where
  "block_start [] depth = None"
| "block_start (s # ss) depth =
     (if s = Block_close then block_start ss (depth + 1)
      else if opens_block s then
        (if depth = 1 then Some (length ss) else block_start ss (depth - 1))
      else block_start ss depth)"

text \<open>
  Running the translated program, with a bound on the number of statements executed.
  \<open>tape\<close> has the cell type the declaration names and \<open>i\<close> is a \<open>ptrdiff_t\<close>; they are
  held in an environment record, \<open>ptr\<close> being \<open>i\<close>. The program checks no bounds:
  \<open>tape[i]\<close> off the tape is undefined. A \<open>while\<close> whose cell is 0 continues after the
  end of its block, the end of a \<open>while\<close> block goes back to its test, and \<open>return\<close> or
  the end of \<open>main\<close> ends the run.
\<close>

fun run_c ::
  "nat \<Rightarrow> storage_t \<Rightarrow> (nat \<Rightarrow> int) \<Rightarrow> cstmt list \<Rightarrow> xl_brainfuck_env \<Rightarrow> console \<Rightarrow> nat
    \<Rightarrow> (verdict \<times> xl_brainfuck_env \<times> console) option" where
  "run_c 0 t getch prog m con pc = None"
| "run_c (Suc n) t getch prog m con pc =
     (if pc < length prog then
        (case prog ! pc of
           Main_open \<Rightarrow> run_c n t getch prog m con (pc + 1)
         | Idx_add k \<Rightarrow> run_c n t getch prog (m\<lparr>ptr := ptr m + k\<rparr>) con (pc + 1)
         | Cell_add k \<Rightarrow>
             (case load m of None \<Rightarrow> Some (Undefined, m, con)
              | Some v \<Rightarrow>
                  (case store m (wrap t (v + k)) of None \<Rightarrow> Some (Undefined, m, con)
                   | Some m' \<Rightarrow> run_c n t getch prog m' con (pc + 1)))
         | Printf_cell fmt \<Rightarrow>
             (case load m of None \<Rightarrow> Some (Undefined, m, con)
              | Some v \<Rightarrow> run_c n t getch prog m (print (c_printf fmt [v]) con) (pc + 1))
         | Getch_cell \<Rightarrow>
             (case store m (wrap t (getch (keys_read con))) of None \<Rightarrow> Some (Undefined, m, con)
              | Some m' \<Rightarrow>
                  run_c n t getch prog m' (con\<lparr>keys_read := keys_read con + 1\<rparr>) (pc + 1))
         | Getch_wait \<Rightarrow> run_c n t getch prog m (con\<lparr>keys_read := keys_read con + 1\<rparr>) (pc + 1)
         | While_open \<Rightarrow>
             (case load m of None \<Rightarrow> Some (Undefined, m, con)
              | Some v \<Rightarrow>
                  if v \<noteq> 0 then run_c n t getch prog m con (pc + 1)
                  else (case block_end (drop (pc + 1) prog) (pc + 1) 1 of
                          None \<Rightarrow> Some (Undefined, m, con)
                        | Some j \<Rightarrow> run_c n t getch prog m con (j + 1)))
         | Block_close \<Rightarrow>
             (case block_start (rev (take pc prog)) 1 of
                None \<Rightarrow> Some (Undefined, m, con)
              | Some j \<Rightarrow>
                  if prog ! j = While_open then run_c n t getch prog m con j
                  else Some (Success, m, con))
         | Return_stmt \<Rightarrow> Some (Success, m, con))
      else Some (Success, m, con))"

section \<open>Resetting the environment\<close>

lemma reset_loop_tape:
  "0 \<le> k \<Longrightarrow>
   tape (reset_loop e k) = take (nat k) (tape e) @ replicate (length (tape e) - nat k) 0"
proof (induction e k rule: reset_loop.induct)
  case (1 e k)
  show ?case
  proof (cases "k \<le> maxaddr e")
    case True
    let ?e' = "e\<lparr>tape := (tape e)[nat k := 0]\<rparr>"
    from True "1.prems" have lt: "nat k < length (tape e)"
      by (simp add: maxaddr_def)
    have "tape (reset_loop e k) = tape (reset_loop ?e' (k + 1))"
      using True by (subst reset_loop.simps) simp
    also have "\<dots> = take (nat (k + 1)) (tape ?e') @ replicate (length (tape ?e') - nat (k + 1)) 0"
      using "1.IH" [OF True] "1.prems" by simp
    also have "take (nat (k + 1)) (tape ?e') = take (nat k) (tape e) @ [0]"
      using lt "1.prems" by (simp add: nat_add_distrib take_Suc_conv_app_nth)
    also have "(take (nat k) (tape e) @ [0]) @ replicate (length (tape ?e') - nat (k + 1)) 0
        = take (nat k) (tape e) @ replicate (length (tape e) - nat k) 0"
      using lt "1.prems"
      by (simp add: nat_add_distrib replicate_app_Cons_same Suc_diff_Suc flip: replicate_Suc)
    finally show ?thesis .
  next
    case False
    then have "length (tape e) \<le> nat k"
      using "1.prems" by (simp add: maxaddr_def)
    then show ?thesis
      using False by (subst reset_loop.simps) simp
  qed
qed

text \<open>
  Claim C9. For every capacity and every prior state of the environment, after \<open>reset\<close>
  the tape has the same number of cells as before and every one of them is 0 (as a
  list, and as read through \<open>ptr\<close> at every address of the tape), and the pointer is at
  the first address.
\<close>

theorem reset_zeroes_every_cell:
  "tape (reset e) = replicate (length (tape e)) 0
   \<and> ptr (reset e) = 0
   \<and> length (tape (reset e)) = length (tape e)
   \<and> (\<forall>i. 0 \<le> i \<and> i < int (length (tape e)) \<longrightarrow> load ((reset e)\<lparr>ptr := i\<rparr>) = Some 0)"
proof -
  have t: "tape (reset e) = replicate (length (tape e)) 0"
    using reset_loop_tape [of 0 e] by (simp add: reset_def minaddr_def)
  moreover have "ptr (reset e) = 0"
    by (simp add: reset_def minaddr_def)
  ultimately show ?thesis
    by (auto simp: load_def nat_less_iff)
qed

theorem reset_zeroes_every_cell_witness:
  "tape (reset \<lparr>tape = [5, - 3, 7], ptr = 9\<rparr>) = [0, 0, 0]
   \<and> ptr (reset \<lparr>tape = [5, - 3, 7], ptr = 9\<rparr>) = 0
   \<and> load ((reset \<lparr>tape = [5, - 3, 7], ptr = 9\<rparr>)\<lparr>ptr := 2\<rparr>) = Some 0"
  using reset_zeroes_every_cell [of "\<lparr>tape = [5, - 3, 7], ptr = 9\<rparr>"]
  by (simp add: numeral_3_eq_3)

section \<open>Translation leaves the environment alone\<close>

lemma self_emit [simp]: "self (emit s st) = self st"
  by (simp add: emit_def)

lemma self_indent [simp]: "self (indent st) = self st"
  by (simp add: indent_def)

lemma self_translate_char [simp]: "self (translate_char t bfcode st) = self st"
  by (simp add: translate_char_def Let_def split: prod.splits)

lemma self_translate_loop [simp]: "self (translate_loop t bfcode st) = self st"
proof (induction t bfcode st rule: translate_loop.induct)
  case (1 t bfcode st)
  then show ?case
    by (subst translate_loop.simps) simp
qed

lemma self_prologue [simp]: "self (prologue t st) = self st"
  by (simp add: prologue_def Let_def)

lemma self_epilogue [simp]: "self (epilogue st) = self st"
  by (simp add: epilogue_def Let_def)

text \<open>
  Claim C10. For every instruction stream and every cell type, the environment that
  \<open>translate\<close> was called on has the same tape cells and the same pointer after the call
  as before it.
\<close>

theorem translate_leaves_environment:
  "snd (translate t bfcode e) = e"
  by (simp add: translate_def translate_final_def Let_def)

theorem translate_leaves_environment_witness:
  "snd (translate T_int ''+>[-].'' \<lparr>tape = [1, 2], ptr = 5\<rparr>) = \<lparr>tape = [1, 2], ptr = 5\<rparr>"
  using translate_leaves_environment [of T_int "''+>[-].''" "\<lparr>tape = [1, 2], ptr = 5\<rparr>"] .

section \<open>The interpreter never touches a cell off the tape\<close>

lemma load_None_iff: "load e = None \<longleftrightarrow> ptroutofrange e"
  by (auto simp: load_def ptroutofrange_def minaddr_def maxaddr_def)

lemma store_None_iff: "store e v = None \<longleftrightarrow> ptroutofrange e"
  by (auto simp: store_def ptroutofrange_def minaddr_def maxaddr_def)

lemma load_in_range: "\<not> ptroutofrange e \<Longrightarrow> load e = Some (tape e ! nat (ptr e))"
  by (auto simp: load_def ptroutofrange_def minaddr_def maxaddr_def)

lemma store_in_range:
  "\<not> ptroutofrange e \<Longrightarrow> store e v = Some (e\<lparr>tape := (tape e)[nat (ptr e) := v]\<rparr>)"
  by (auto simp: store_def ptroutofrange_def minaddr_def maxaddr_def)

lemma step_not_Fault: "step t getch code e con codeptr \<noteq> Fault"
proof (cases "ptroutofrange e")
  case True
  then show ?thesis
    by (simp add: step_def Let_def halt_def split: option.splits)
next
  case False
  then show ?thesis
    by (simp add: step_def Let_def halt_def load_in_range store_in_range split: option.splits)
qed

lemma step_AccessViolation_iff:
  "(\<exists>i e' con'. step t getch code e con codeptr = Halt (AccessViolation i) e' con')
     \<longleftrightarrow> accesses_cell (code ! codeptr) \<and> ptroutofrange e"
proof (cases "ptroutofrange e")
  case True
  then show ?thesis
    by (auto simp: step_def Let_def halt_def accesses_cell_def split: option.splits)
next
  case False
  then show ?thesis
    by (simp add: step_def Let_def halt_def load_in_range store_in_range split: option.splits)
qed

lemma step_move:
  "code ! codeptr = CHR ''>'' \<Longrightarrow>
     step t getch code e con codeptr = Continue (e\<lparr>ptr := ptr e + 1\<rparr>) con (codeptr + 1)"
  "code ! codeptr = CHR ''<'' \<Longrightarrow>
     step t getch code e con codeptr = Continue (e\<lparr>ptr := ptr e - 1\<rparr>) con (codeptr + 1)"
  by (simp_all add: step_def)

lemma run_not_Undefined:
  "run n t getch code e con codeptr \<noteq> Some (Undefined, e', con')"
proof (induction n arbitrary: e con codeptr)
  case 0
  show ?case by simp
next
  case (Suc n)
  show ?case
    using Suc.IH step_not_Fault [of t getch code e con codeptr]
    by (auto split: outcome.splits)
qed

text \<open>
  Claim C7. In every pass of the interpreter loop, and so in every call of \<open>interpret\<close>
  however long it runs, no cell is dereferenced while \<open>ptr\<close> is off the tape: a pass
  never ends in \<open>Fault\<close> and a run never ends \<open>Undefined\<close>, where \<open>load\<close> and \<open>store\<close>
  fail exactly when \<open>ptroutofrange\<close> holds. The pass returns with an access violation
  exactly when the character is one of \<open>+ - . : , [\<close> and \<open>ptr\<close> is out of range.
  \<open>>\<close> and \<open><\<close> always continue, moving \<open>ptr\<close> by one.
\<close>

theorem interpret_checks_bounds:
  "step t getch code e con codeptr \<noteq> Fault
   \<and> run n t getch code e con codeptr \<noteq> Some (Undefined, e', con')
   \<and> ((\<exists>i e' con'. step t getch code e con codeptr = Halt (AccessViolation i) e' con')
        \<longleftrightarrow> accesses_cell (code ! codeptr) \<and> ptroutofrange e)
   \<and> (code ! codeptr = CHR ''>'' \<longrightarrow>
        step t getch code e con codeptr = Continue (e\<lparr>ptr := ptr e + 1\<rparr>) con (codeptr + 1))
   \<and> (code ! codeptr = CHR ''<'' \<longrightarrow>
        step t getch code e con codeptr = Continue (e\<lparr>ptr := ptr e - 1\<rparr>) con (codeptr + 1))
   \<and> (load e = None \<longleftrightarrow> ptroutofrange e)
   \<and> (store e v = None \<longleftrightarrow> ptroutofrange e)"
proof (intro conjI impI)
  show "step t getch code e con codeptr \<noteq> Fault"
    by (rule step_not_Fault)
  show "run n t getch code e con codeptr \<noteq> Some (Undefined, e', con')"
    by (rule run_not_Undefined)
  show "(\<exists>i e' con'. step t getch code e con codeptr = Halt (AccessViolation i) e' con')
      \<longleftrightarrow> accesses_cell (code ! codeptr) \<and> ptroutofrange e"
    by (rule step_AccessViolation_iff)
  show "step t getch code e con codeptr = Continue (e\<lparr>ptr := ptr e + 1\<rparr>) con (codeptr + 1)"
    if "code ! codeptr = CHR ''>''"
    using that by (rule step_move)
  show "step t getch code e con codeptr = Continue (e\<lparr>ptr := ptr e - 1\<rparr>) con (codeptr + 1)"
    if "code ! codeptr = CHR ''<''"
    using that by (rule step_move)
  show "load e = None \<longleftrightarrow> ptroutofrange e"
    by (rule load_None_iff)
  show "store e v = None \<longleftrightarrow> ptroutofrange e"
    by (rule store_None_iff)
qed

theorem interpret_checks_bounds_witness:
  "step T_int (\<lambda>n. 0) ''<+'' \<lparr>tape = [0], ptr = - 1\<rparr> \<lparr>screen = [], keys_read = 0\<rparr> 1 \<noteq> Fault
   \<and> (\<exists>i e' con'. step T_int (\<lambda>n. 0) ''<+'' \<lparr>tape = [0], ptr = - 1\<rparr> \<lparr>screen = [], keys_read = 0\<rparr> 1
          = Halt (AccessViolation i) e' con')
   \<and> step T_int (\<lambda>n. 0) ''<+'' \<lparr>tape = [0], ptr = 0\<rparr> \<lparr>screen = [], keys_read = 0\<rparr> 0
        = Continue \<lparr>tape = [0], ptr = - 1\<rparr> \<lparr>screen = [], keys_read = 0\<rparr> 1"
proof -
  have a: "accesses_cell (''<+'' ! 1)"
    by (simp add: accesses_cell_def)
  have r: "ptroutofrange \<lparr>tape = [0], ptr = - 1\<rparr>"
    by (simp add: ptroutofrange_def minaddr_def)
  have c: "''<+'' ! 0 = CHR ''<''"
    by simp
  show ?thesis
    using interpret_checks_bounds [of T_int "\<lambda>n. 0" "''<+''" "\<lparr>tape = [0], ptr = - 1\<rparr>"
        "\<lparr>screen = [], keys_read = 0\<rparr>" 1] a r
      interpret_checks_bounds [of T_int "\<lambda>n. 0" "''<+''" "\<lparr>tape = [0], ptr = 0\<rparr>"
        "\<lparr>screen = [], keys_read = 0\<rparr>" 0] c
    by simp
qed

section \<open>An access violation changes nothing\<close>

lemma step_Halt_env:
  "step t getch code e con codeptr = Halt err e' con' \<Longrightarrow> e' = e"
  by (auto simp: step_def Let_def halt_def split: option.splits if_splits)

lemma run_AccessViolation_last:
  "run n t getch code e con codeptr = Some (Failure (AccessViolation i), e', con') \<Longrightarrow>
   \<exists>k con_k codeptr_k. k < n
     \<and> executed k t getch code e con codeptr = Some (e', con_k, codeptr_k)
     \<and> codeptr_k < length code
     \<and> step t getch code e' con_k codeptr_k = Halt (AccessViolation i) e' con'"
proof (induction n arbitrary: e con codeptr)
  case 0
  then show ?case by simp
next
  case (Suc n)
  from Suc.prems have inside: "codeptr < length code"
    by (auto split: if_splits)
  show ?case
  proof (cases "step t getch code e con codeptr")
    case (Continue e1 con1 codeptr1)
    with Suc.prems inside have "run n t getch code e1 con1 codeptr1
        = Some (Failure (AccessViolation i), e', con')"
      by simp
    from Suc.IH [OF this] obtain k con_k codeptr_k where
      "k < n" "executed k t getch code e1 con1 codeptr1 = Some (e', con_k, codeptr_k)"
      "codeptr_k < length code"
      "step t getch code e' con_k codeptr_k = Halt (AccessViolation i) e' con'"
      by blast
    then have "Suc k < Suc n
        \<and> executed (Suc k) t getch code e con codeptr = Some (e', con_k, codeptr_k)
        \<and> codeptr_k < length code
        \<and> step t getch code e' con_k codeptr_k = Halt (AccessViolation i) e' con'"
      using Continue inside by simp
    then show ?thesis by blast
  next
    case (Halt err e1 con1)
    with Suc.prems inside have eq: "err = AccessViolation i" "e1 = e'" "con1 = con'"
      by simp_all
    from Halt have "e1 = e" by (rule step_Halt_env)
    with eq Halt inside have "0 < Suc n
        \<and> executed 0 t getch code e con codeptr = Some (e', con, codeptr)
        \<and> codeptr < length code
        \<and> step t getch code e' con codeptr = Halt (AccessViolation i) e' con'"
      by simp
    then show ?thesis by blast
  next
    case Fault
    with Suc.prems inside show ?thesis by simp
  qed
qed

text \<open>
  Claim C8. A pass of the interpreter loop that halts with an access violation returns
  the tape and the pointer it started with. When a run of \<open>interpret\<close> ends with an
  access violation, the environment it returns is the one reached after the
  instructions executed before it, \<open>k\<close> of them, and the instruction at that point is
  the one that raises the violation.
\<close>

theorem access_violation_leaves_state:
  "(step t getch code e con codeptr = Halt (AccessViolation i) e' con'
      \<longrightarrow> tape e' = tape e \<and> ptr e' = ptr e)
   \<and> (run n t getch code e con codeptr = Some (Failure (AccessViolation i), e', con')
      \<longrightarrow> (\<exists>k con_k codeptr_k. k < n
            \<and> executed k t getch code e con codeptr = Some (e', con_k, codeptr_k)
            \<and> codeptr_k < length code
            \<and> step t getch code e' con_k codeptr_k = Halt (AccessViolation i) e' con'))"
  using step_Halt_env [of t getch code e con codeptr "AccessViolation i" e' con']
    run_AccessViolation_last [of n t getch code e con codeptr i e' con']
  by blast

theorem access_violation_leaves_state_witness:
  "run 5 T_int (\<lambda>n. 0) ''+<-'' \<lparr>tape = [0], ptr = 0\<rparr> \<lparr>screen = [], keys_read = 0\<rparr> 0
     = Some (Failure (AccessViolation Write_intent), \<lparr>tape = [1], ptr = - 1\<rparr>,
         \<lparr>screen = ''Access violation: attempt to write to an out-of-range address.'',
          keys_read = 0\<rparr>)
   \<and> (\<exists>k con_k codeptr_k. k < 5
        \<and> executed k T_int (\<lambda>n. 0) ''+<-'' \<lparr>tape = [0], ptr = 0\<rparr> \<lparr>screen = [], keys_read = 0\<rparr> 0
            = Some (\<lparr>tape = [1], ptr = - 1\<rparr>, con_k, codeptr_k))"
proof -
  have r: "run 5 T_int (\<lambda>n. 0) ''+<-'' \<lparr>tape = [0], ptr = 0\<rparr> \<lparr>screen = [], keys_read = 0\<rparr> 0
     = Some (Failure (AccessViolation Write_intent), \<lparr>tape = [1], ptr = - 1\<rparr>,
         \<lparr>screen = ''Access violation: attempt to write to an out-of-range address.'',
          keys_read = 0\<rparr>)"
    by code_simp
  show ?thesis
    using access_violation_leaves_state [of T_int "\<lambda>n. 0" "''+<-''" "\<lparr>tape = [0], ptr = 0\<rparr>"
        "\<lparr>screen = [], keys_read = 0\<rparr>" 0 Write_intent "\<lparr>tape = [1], ptr = - 1\<rparr>"
        "\<lparr>screen = ''Access violation: attempt to write to an out-of-range address.'',
          keys_read = 0\<rparr>" 5] r
    by blast
qed

section \<open>Brackets in the interpreter\<close>

text \<open>
  The search loops count in an \<open>unsigned\<close>. As long as the depth cannot pass \<open>2 ^ 32\<close>
  before the stream ends, the count is the depth modulo \<open>2 ^ 32\<close> and reaches 0 exactly
  when the depth does.
\<close>

lemma incr_u32_mod: "incr_u32 (d mod 4294967296) = (d + 1) mod 4294967296"
  unfolding incr_u32_def by (rule mod_add_left_eq)

lemma decr_u32_mod:
  assumes "0 < d"
  shows "decr_u32 (d mod 4294967296) = (d - 1) mod 4294967296"
proof -
  have "(d mod 4294967296 + 4294967295) mod 4294967296 = (d + 4294967295) mod 4294967296"
    by (rule mod_add_left_eq)
  also have "d + 4294967295 = (d - 1) + 1 * 4294967296"
    using assms by simp
  also have "((d - 1) + 1 * 4294967296) mod 4294967296 = (d - 1) mod 4294967296"
    by (rule mod_mult_self1)
  finally show ?thesis
    by (simp only: decr_u32_def)
qed

lemma decr_u32_mod_zero:
  assumes "0 < d" and "d \<le> 4294967296"
  shows "decr_u32 (d mod 4294967296) = 0 \<longleftrightarrow> d = 1"
proof -
  have "(d - 1) mod 4294967296 = d - 1"
    using assms by simp
  then show ?thesis
    using assms(1) by (auto simp: decr_u32_mod [OF assms(1)])
qed

lemma forward_search_scan_mod:
  "k \<le> length code \<Longrightarrow> 0 < d \<Longrightarrow> d + (length code - k) \<le> 4294967297 \<Longrightarrow>
   forward_search code k (d mod 4294967296) = scan_forward (drop k code) k d"
proof (induction "length code - k" arbitrary: k d)
  case 0
  then have "\<not> k < length code" by simp
  then show ?case
    by (subst forward_search.simps) simp
next
  case (Suc r)
  then have lt: "k < length code" by simp
  then have dr: "drop k code = code ! k # drop (Suc k) code"
    by (simp add: Cons_nth_drop_Suc)
  from Suc.prems Suc.hyps(2) have d_le: "d \<le> 4294967296"
    by simp
  have r: "r = length code - (k + 1)"
    using Suc.hyps(2) by simp
  show ?case
  proof (cases "code ! k = CHR ''[''")
    case True
    have "forward_search code (k + 1) ((d + 1) mod 4294967296)
        = scan_forward (drop (k + 1) code) (k + 1) (d + 1)"
      using lt Suc.prems by (intro Suc.hyps(1) [OF r]) simp_all
    then show ?thesis
      using lt True by (subst forward_search.simps) (simp add: dr incr_u32_mod)
  next
    case not_open: False
    show ?thesis
    proof (cases "code ! k = CHR '']''")
      case True
      show ?thesis
      proof (cases "d = 1")
        case one: True
        then have "decr_u32 (d mod 4294967296) = 0"
          using decr_u32_mod_zero [OF \<open>0 < d\<close> d_le] by simp
        then show ?thesis
          using lt not_open True one by (subst forward_search.simps) (simp add: dr)
      next
        case False
        then have nz: "decr_u32 (d mod 4294967296) \<noteq> 0"
          using decr_u32_mod_zero [OF \<open>0 < d\<close> d_le] by simp
        have "forward_search code (k + 1) ((d - 1) mod 4294967296)
            = scan_forward (drop (k + 1) code) (k + 1) (d - 1)"
          using lt Suc.prems False by (intro Suc.hyps(1) [OF r]) simp_all
        then show ?thesis
          using lt not_open True False nz
          by (subst forward_search.simps) (simp add: dr decr_u32_mod [OF \<open>0 < d\<close>])
      qed
    next
      case False
      have "forward_search code (k + 1) (d mod 4294967296)
          = scan_forward (drop (k + 1) code) (k + 1) d"
        using lt Suc.prems by (intro Suc.hyps(1) [OF r]) simp_all
      then show ?thesis
        using lt not_open False by (subst forward_search.simps) (simp add: dr)
    qed
  qed
qed


lemma net_depth_Cons:
  "net_depth (c # cs) = (if c = CHR ''['' then 1 else if c = CHR '']'' then - 1 else 0) + net_depth cs"
  by (simp add: net_depth_def)

lemma net_depth_Nil [simp]: "net_depth [] = 0"
  by (simp add: net_depth_def)

lemma scan_forward_Some_iff:
  "0 < d \<Longrightarrow>
   scan_forward cs i d = Some m \<longleftrightarrow>
     (\<exists>n<length cs. m = i + n \<and> int d + net_depth (take (Suc n) cs) = 0
        \<and> (\<forall>j<n. 0 < int d + net_depth (take (Suc j) cs)))"
proof (induction cs arbitrary: i d)
  case Nil
  show ?case by simp
next
  case (Cons c cs)
  show ?case
  proof (cases "c = CHR '']'' \<and> d = 1")
    case True
    have "(\<exists>n<length (c # cs). m = i + n \<and> int d + net_depth (take (Suc n) (c # cs)) = 0
        \<and> (\<forall>j<n. 0 < int d + net_depth (take (Suc j) (c # cs)))) \<longleftrightarrow> m = i"
    proof
      assume "\<exists>n<length (c # cs). m = i + n \<and> int d + net_depth (take (Suc n) (c # cs)) = 0
        \<and> (\<forall>j<n. 0 < int d + net_depth (take (Suc j) (c # cs)))"
      then obtain n where n: "m = i + n" "\<forall>j<n. 0 < int d + net_depth (take (Suc j) (c # cs))"
        by blast
      have "n = 0"
      proof (rule ccontr)
        assume "n \<noteq> 0"
        then have "0 < int d + net_depth (take (Suc 0) (c # cs))"
          using n(2) by blast
        then show False
          using True by (simp add: net_depth_Cons)
      qed
      then show "m = i" using n(1) by simp
    next
      assume "m = i"
      then show "\<exists>n<length (c # cs). m = i + n \<and> int d + net_depth (take (Suc n) (c # cs)) = 0
        \<and> (\<forall>j<n. 0 < int d + net_depth (take (Suc j) (c # cs)))"
        using True by (intro exI [of _ 0]) (simp add: net_depth_Cons)
    qed
    then show ?thesis
      using True by auto
  next
    case False
    define d' where "d' = (if c = CHR ''['' then d + 1 else if c = CHR '']'' then d - 1 else d)"
    have d'_pos: "0 < d'"
      using False Cons.prems by (auto simp: d'_def)
    have d'_int: "int d' = int d + net_depth [c]"
      using False Cons.prems by (auto simp: d'_def net_depth_Cons)
    have shift: "int d + net_depth (take (Suc (Suc j)) (c # cs)) = int d' + net_depth (take (Suc j) cs)" for j
      by (simp add: d'_int net_depth_Cons)
    have first: "int d + net_depth (take (Suc 0) (c # cs)) = int d'"
      by (simp add: d'_int net_depth_Cons)
    have "scan_forward (c # cs) i d = scan_forward cs (i + 1) d'"
      using False by (auto simp: d'_def)
    also have "\<dots> = Some m \<longleftrightarrow>
        (\<exists>n<length cs. m = i + 1 + n \<and> int d' + net_depth (take (Suc n) cs) = 0
          \<and> (\<forall>j<n. 0 < int d' + net_depth (take (Suc j) cs)))"
      by (rule Cons.IH [OF d'_pos])
    also have "\<dots> \<longleftrightarrow>
        (\<exists>n<length (c # cs). m = i + n \<and> int d + net_depth (take (Suc n) (c # cs)) = 0
          \<and> (\<forall>j<n. 0 < int d + net_depth (take (Suc j) (c # cs))))"
      using d'_pos
      by (simp only: length_Cons Ex_less_Suc2 All_less_Suc2 shift first) auto
    finally show ?thesis .
  qed
qed

lemma find_forward_match_iff:
  "find_forward_match stream open_index = Some m \<longleftrightarrow> is_forward_match stream open_index m"
proof -
  let ?cs = "drop (open_index + 1) stream"
  have "find_forward_match stream open_index = Some m \<longleftrightarrow>
      (\<exists>n<length ?cs. m = open_index + 1 + n \<and> 1 + net_depth (take (Suc n) ?cs) = 0
        \<and> (\<forall>j<n. 0 < 1 + net_depth (take (Suc j) ?cs)))"
    unfolding find_forward_match_def using scan_forward_Some_iff [of 1 ?cs "open_index + 1" m]
    by simp
  also have "\<dots> \<longleftrightarrow> is_forward_match stream open_index m"
  proof
    assume "\<exists>n<length ?cs. m = open_index + 1 + n \<and> 1 + net_depth (take (Suc n) ?cs) = 0
        \<and> (\<forall>j<n. 0 < 1 + net_depth (take (Suc j) ?cs))"
    then obtain n where n: "n < length ?cs" "m = open_index + 1 + n"
      "1 + net_depth (take (Suc n) ?cs) = 0" "\<forall>j<n. 0 < 1 + net_depth (take (Suc j) ?cs)"
      by blast
    have "0 < depth_forward stream open_index k" if "open_index < k" "k < m" for k
    proof -
      from that n(2) have "k - open_index - 1 < n" by simp
      with n(4) have "0 < 1 + net_depth (take (Suc (k - open_index - 1)) ?cs)" by blast
      moreover have "Suc (k - open_index - 1) = k - open_index"
        using that by simp
      ultimately show ?thesis
        by (simp only: depth_forward_def)
    qed
    then show "is_forward_match stream open_index m"
      using n by (simp add: is_forward_match_def depth_forward_def)
  next
    assume "is_forward_match stream open_index m"
    then have m: "open_index < m" "m < length stream" "depth_forward stream open_index m = 0"
      "\<And>k. open_index < k \<Longrightarrow> k < m \<Longrightarrow> 0 < depth_forward stream open_index k"
      by (simp_all add: is_forward_match_def)
    let ?n = "m - open_index - 1"
    have "0 < 1 + net_depth (take (Suc j) ?cs)" if "j < ?n" for j
      using m(4) [of "open_index + 1 + j"] that by (simp add: depth_forward_def)
    then have "?n < length ?cs \<and> m = open_index + 1 + ?n \<and> 1 + net_depth (take (Suc ?n) ?cs) = 0
        \<and> (\<forall>j<?n. 0 < 1 + net_depth (take (Suc j) ?cs))"
      using m(1-3) by (simp add: depth_forward_def Suc_diff_Suc)
    then show "\<exists>n<length ?cs. m = open_index + 1 + n \<and> 1 + net_depth (take (Suc n) ?cs) = 0
        \<and> (\<forall>j<n. 0 < 1 + net_depth (take (Suc j) ?cs))"
      by blast
  qed
  finally show ?thesis .
qed

lemma net_depth_rev [simp]: "net_depth (rev cs) = net_depth cs"
  by (simp add: net_depth_def)




lemma net_depth_append [simp]: "net_depth (xs @ ys) = net_depth xs + net_depth ys"
  by (simp add: net_depth_def)

lemma net_depth_single:
  "net_depth [c] = (if c = CHR ''['' then 1 else if c = CHR '']'' then - 1 else 0)"
  by (simp add: net_depth_def)

lemma forward_match_is_close:
  assumes "is_forward_match stream open_index m"
  shows "stream ! m = CHR '']''"
proof -
  from assms have m: "open_index < m" "m < length stream" "depth_forward stream open_index m = 0"
    and before: "\<And>k. open_index < k \<Longrightarrow> k < m \<Longrightarrow> 0 < depth_forward stream open_index k"
    by (simp_all add: is_forward_match_def)
  let ?cs = "drop (open_index + 1) stream"
  let ?n = "m - open_index - 1"
  have n: "?n < length ?cs" "Suc ?n = m - open_index" "?cs ! ?n = stream ! m"
    using m(1,2) by simp_all
  have "take (Suc ?n) ?cs = take ?n ?cs @ [stream ! m]"
    using n(1,3) by (simp only: take_Suc_conv_app_nth)
  then have "take (m - open_index) ?cs = take ?n ?cs @ [stream ! m]"
    by (simp only: n(2))
  then have "depth_forward stream open_index m
      = 1 + net_depth (take ?n ?cs) + net_depth [stream ! m]"
    by (simp add: depth_forward_def)
  moreover have "0 < 1 + net_depth (take ?n ?cs)"
  proof (cases "?n = 0")
    case True
    then show ?thesis by simp
  next
    case False
    then have "open_index < m - 1" "m - 1 < m" "m - 1 - open_index = ?n"
      using m(1) by simp_all
    then show ?thesis
      using before [of "m - 1"] by (simp add: depth_forward_def)
  qed
  ultimately have "net_depth [stream ! m] < 0"
    using m(3) by simp
  then show ?thesis
    by (simp add: net_depth_single split: if_splits)
qed


text \<open>
  Past that bound the count wraps: a run of \<open>2 ^ 32\<close> brackets of the same kind leaves
  it as it was.
\<close>

lemma forward_search_opens:
  "c < 4294967296 \<Longrightarrow>
   forward_search (pre @ replicate n (CHR ''['') @ post) (length pre) c
     = forward_search (pre @ replicate n (CHR ''['') @ post) (length pre + n) ((c + n) mod 4294967296)"
proof (induction n arbitrary: pre c)
  case 0
  then show ?case by simp
next
  case (Suc n)
  let ?code = "pre @ replicate (Suc n) (CHR ''['') @ post"
  have code: "?code = (pre @ [CHR ''['']) @ replicate n (CHR ''['') @ post"
    by simp
  have "forward_search ?code (length pre) c = forward_search ?code (length pre + 1) (incr_u32 c)"
    by (subst forward_search.simps) (simp add: nth_append)
  also have "\<dots> = forward_search ?code (length (pre @ [CHR ''['']) + n)
      ((incr_u32 c + n) mod 4294967296)"
    unfolding code using Suc.IH [of "incr_u32 c" "pre @ [CHR ''['']"]
    by (simp add: incr_u32_def)
  also have "(incr_u32 c + n) mod 4294967296 = (c + Suc n) mod 4294967296"
    unfolding incr_u32_def by (simp add: mod_add_left_eq)
  finally show ?case
    by simp
qed

lemma scan_forward_opens:
  "scan_forward (replicate n (CHR ''['') @ rest) i d = scan_forward rest (i + n) (d + n)"
  by (induction n arbitrary: i d) simp_all



text \<open>
  Claim C3, as the specification states it, fails. In the stream of \<open>2 ^ 32 + 1\<close>
  characters \<open>[\<close> followed by one \<open>]\<close>, the first \<open>[\<close> has no match: the depth is still
  \<open>2 ^ 32\<close> at the end of the stream. With the pointer in range and the cell 0, the
  interpreter does not report a syntax error there; its count has wrapped to 0 at the
  \<open>]\<close>, and it continues just past it.
\<close>

theorem counter_wraps_at_open_bracket:
  "find_forward_match (CHR ''['' # replicate 4294967296 (CHR ''['') @ '']'') 0 = None
   \<and> step T_int (\<lambda>n. 0) (CHR ''['' # replicate 4294967296 (CHR ''['') @ '']'')
        \<lparr>tape = [0], ptr = 0\<rparr> \<lparr>screen = [], keys_read = 0\<rparr> 0
      = Continue \<lparr>tape = [0], ptr = 0\<rparr> \<lparr>screen = [], keys_read = 0\<rparr> 4294967298"
proof
  let ?code = "[CHR ''[''] @ replicate 4294967296 (CHR ''['') @ '']''"
  have "scan_forward (replicate 4294967296 (CHR ''['') @ '']'') (0 + 1) 1 = None"
    by (simp only: scan_forward_opens) simp
  then show "find_forward_match (CHR ''['' # replicate 4294967296 (CHR ''['') @ '']'') 0 = None"
    by (simp add: find_forward_match_def)
  have "forward_search ?code (length [CHR ''['']) 1
      = forward_search ?code (length [CHR ''['' ] + 4294967296) ((1 + 4294967296) mod 4294967296)"
    by (rule forward_search_opens) simp
  also have "\<dots> = forward_search ?code 4294967297 1"
    by simp
  also have "\<dots> = Some 4294967297"
    by (subst forward_search.simps) (simp add: nth_append decr_u32_def)
  finally have fs: "forward_search (CHR ''['' # replicate 4294967296 (CHR ''['') @ '']'') (0 + 1) 1
      = Some 4294967297"
    by simp
  have r: "\<not> ptroutofrange \<lparr>tape = [0], ptr = 0\<rparr>"
    by (simp add: ptroutofrange_def minaddr_def maxaddr_def)
  show "step T_int (\<lambda>n. 0) (CHR ''['' # replicate 4294967296 (CHR ''['') @ '']'')
        \<lparr>tape = [0], ptr = 0\<rparr> \<lparr>screen = [], keys_read = 0\<rparr> 0
      = Continue \<lparr>tape = [0], ptr = 0\<rparr> \<lparr>screen = [], keys_read = 0\<rparr> 4294967298"
    using fs r by (simp add: step_def load_in_range)
qed

text \<open>
  Claim C3, amended. At a \<open>[\<close> of a stream of at most \<open>2 ^ 32 + 1\<close> characters: with
  \<open>ptr\<close> out of range the pass prints the read diagnostic and \<open>interpret\<close> returns with
  an access violation; otherwise, if the forward search of the Loop Matcher finds no
  match, it prints the missing \<open>]\<close> diagnostic and \<open>interpret\<close> returns with a syntax
  error; otherwise it continues just past the matching \<open>]\<close> when the current cell is 0
  and just past the \<open>[\<close> when it is not, with tape, pointer and console unchanged. The
  match the search finds is the first index after the \<open>[\<close> at which the depth is 0, and
  a \<open>]\<close> stands there.
\<close>

theorem open_bracket_step_bounded:
  assumes "codeptr < length code" and "code ! codeptr = CHR ''[''"
    and "length code \<le> 4294967297"
  shows "step t getch code e con codeptr =
     (if ptroutofrange e
      then Halt (AccessViolation Read_intent) e
        (con\<lparr>screen := screen con @ ''Access violation: attempt to read from an out-of-range address.''\<rparr>)
      else case find_forward_match code codeptr of
          None \<Rightarrow> Halt (SyntaxError Missing_close) e
            (con\<lparr>screen := screen con @ ''Syntax error: unenclosed loop detected. Missing ']'.''\<rparr>)
        | Some close_index \<Rightarrow>
            if tape e ! nat (ptr e) = 0 then Continue e con (close_index + 1)
            else Continue e con (codeptr + 1))
    \<and> (ptroutofrange e \<longrightarrow>
         run (Suc n) t getch code e con codeptr
           = Some (Failure (AccessViolation Read_intent), e,
               con\<lparr>screen := screen con @ ''Access violation: attempt to read from an out-of-range address.''\<rparr>))
    \<and> (\<not> ptroutofrange e \<and> find_forward_match code codeptr = None \<longrightarrow>
         run (Suc n) t getch code e con codeptr
           = Some (Failure (SyntaxError Missing_close), e,
               con\<lparr>screen := screen con @ ''Syntax error: unenclosed loop detected. Missing ']'.''\<rparr>))
    \<and> (find_forward_match code codeptr = Some m \<longleftrightarrow> is_forward_match code codeptr m)
    \<and> (is_forward_match code codeptr m \<longrightarrow> code ! m = CHR '']'')"
proof -
  have "forward_search code (codeptr + 1) (1 mod 4294967296)
      = scan_forward (drop (codeptr + 1) code) (codeptr + 1) 1"
    using assms by (intro forward_search_scan_mod) simp_all
  then have fs: "forward_search code (codeptr + 1) 1 = find_forward_match code codeptr"
    by (simp add: find_forward_match_def)
  have st: "step t getch code e con codeptr =
     (if ptroutofrange e
      then Halt (AccessViolation Read_intent) e
        (con\<lparr>screen := screen con @ ''Access violation: attempt to read from an out-of-range address.''\<rparr>)
      else case find_forward_match code codeptr of
          None \<Rightarrow> Halt (SyntaxError Missing_close) e
            (con\<lparr>screen := screen con @ ''Syntax error: unenclosed loop detected. Missing ']'.''\<rparr>)
        | Some close_index \<Rightarrow>
            if tape e ! nat (ptr e) = 0 then Continue e con (close_index + 1)
            else Continue e con (codeptr + 1))"
    using assms(2) fs
    by (simp add: step_def halt_def print_def load_in_range split: option.splits)
  have r1: "run (Suc n) t getch code e con codeptr
           = Some (Failure (AccessViolation Read_intent), e,
               con\<lparr>screen := screen con @ ''Access violation: attempt to read from an out-of-range address.''\<rparr>)"
    if "ptroutofrange e"
    using that assms(1) by (simp add: st)
  have r2: "run (Suc n) t getch code e con codeptr
           = Some (Failure (SyntaxError Missing_close), e,
               con\<lparr>screen := screen con @ ''Syntax error: unenclosed loop detected. Missing ']'.''\<rparr>)"
    if "\<not> ptroutofrange e \<and> find_forward_match code codeptr = None"
    using that assms(1) by (simp add: st)
  have m1: "find_forward_match code codeptr = Some m \<longleftrightarrow> is_forward_match code codeptr m"
    by (rule find_forward_match_iff)
  have m2: "is_forward_match code codeptr m \<longrightarrow> code ! m = CHR '']''"
    using forward_match_is_close by blast
  show ?thesis
    using st r1 r2 m1 m2 by blast
qed

theorem open_bracket_step_bounded_witness:
  "step T_int (\<lambda>n. 0) ''+[-]>'' \<lparr>tape = [0, 0], ptr = 0\<rparr> \<lparr>screen = [], keys_read = 0\<rparr> 1
     = Continue \<lparr>tape = [0, 0], ptr = 0\<rparr> \<lparr>screen = [], keys_read = 0\<rparr> 4
   \<and> is_forward_match ''+[-]>'' 1 3
   \<and> run (Suc 0) T_int (\<lambda>n. 0) ''[+'' \<lparr>tape = [0, 0], ptr = 0\<rparr> \<lparr>screen = [], keys_read = 0\<rparr> 0
     = Some (Failure (SyntaxError Missing_close), \<lparr>tape = [0, 0], ptr = 0\<rparr>,
         \<lparr>screen = ''Syntax error: unenclosed loop detected. Missing ']'.'', keys_read = 0\<rparr>)
   \<and> run (Suc 0) T_int (\<lambda>n. 0) ''[+'' \<lparr>tape = [0, 0], ptr = 2\<rparr> \<lparr>screen = [], keys_read = 0\<rparr> 0
     = Some (Failure (AccessViolation Read_intent), \<lparr>tape = [0, 0], ptr = 2\<rparr>,
         \<lparr>screen = ''Access violation: attempt to read from an out-of-range address.'',
          keys_read = 0\<rparr>)"
proof -
  have h: "(1::nat) < length ''+[-]>''" "''+[-]>'' ! 1 = CHR ''[''" "length ''+[-]>'' \<le> 4294967297"
    by simp_all
  have m: "find_forward_match ''+[-]>'' 1 = Some 3"
    by code_simp
  have r: "\<not> ptroutofrange \<lparr>tape = [0, 0], ptr = 0\<rparr>"
    by (simp add: ptroutofrange_def minaddr_def maxaddr_def)
  have h': "(0::nat) < length ''[+''" "''[+'' ! 0 = CHR ''[''" "length ''[+'' \<le> 4294967297"
    by simp_all
  have m': "find_forward_match ''[+'' 0 = None"
    by code_simp
  have r': "ptroutofrange \<lparr>tape = [0, 0], ptr = 2\<rparr>"
    by (simp add: ptroutofrange_def minaddr_def maxaddr_def)
  show ?thesis
    using open_bracket_step_bounded [OF h, of T_int "\<lambda>n. 0" "\<lparr>tape = [0, 0], ptr = 0\<rparr>"
        "\<lparr>screen = [], keys_read = 0\<rparr>" 0 3] m r
      open_bracket_step_bounded [OF h', of T_int "\<lambda>n. 0" "\<lparr>tape = [0, 0], ptr = 0\<rparr>"
        "\<lparr>screen = [], keys_read = 0\<rparr>" 0 0] m'
      open_bracket_step_bounded [OF h', of T_int "\<lambda>n. 0" "\<lparr>tape = [0, 0], ptr = 2\<rparr>"
        "\<lparr>screen = [], keys_read = 0\<rparr>" 0 0] r'
    by simp
qed




section \<open>The status of a translation\<close>

lemma collate_skips:
  "c \<noteq> up \<Longrightarrow> c \<noteq> down \<Longrightarrow>
   count_list (drop (snd (collate t up down bfcode k v)) bfcode) c = count_list (drop k bfcode) c"
proof (induction t up down bfcode k v rule: collate.induct)
  case (1 t up down bfcode k v)
  show ?case
  proof (cases "k < length bfcode \<and> (bfcode ! k = up \<or> bfcode ! k = down)")
    case True
    then have d: "drop k bfcode = bfcode ! k # drop (k + 1) bfcode"
      by (simp add: Cons_nth_drop_Suc)
    from True "1.IH" "1.prems" have
      "count_list (drop (snd (collate t up down bfcode k v)) bfcode) c
        = count_list (drop (k + 1) bfcode) c"
      by (subst collate.simps) auto
    also have "\<dots> = count_list (drop k bfcode) c"
      using True "1.prems" by (auto simp: d)
    finally show ?thesis .
  next
    case False
    then show ?thesis
      by (subst collate.simps) auto
  qed
qed

lemma collate_net_depth:
  assumes "up \<noteq> CHR ''[''" "up \<noteq> CHR '']''" "down \<noteq> CHR ''[''" "down \<noteq> CHR '']''"
  shows "net_depth (drop (snd (collate t up down bfcode k v)) bfcode) = net_depth (drop k bfcode)"
  using assms by (simp add: net_depth_def collate_skips)

lemma indentlevel_emit [simp]: "indentlevel (emit s st) = indentlevel st"
  by (simp add: emit_def)

lemma indentlevel_indent [simp]: "indentlevel (indent st) = indentlevel st"
  by (simp add: indent_def)

lemma translate_char_net_depth:
  assumes "bfptr st < length bfcode"
  shows "indentlevel (translate_char t bfcode st)
           + net_depth (drop (bfptr (translate_char t bfcode st)) bfcode)
         = indentlevel st + net_depth (drop (bfptr st) bfcode)"
proof -
  let ?c = "bfcode ! bfptr st"
  have d: "drop (bfptr st) bfcode = ?c # drop (bfptr st + 1) bfcode"
    using assms by (simp add: Cons_nth_drop_Suc)
  consider (move) "?c = CHR ''>'' \<or> ?c = CHR ''<''" | (change) "?c = CHR ''+'' \<or> ?c = CHR ''-''"
    | (other) "?c \<noteq> CHR ''>''" "?c \<noteq> CHR ''<''" "?c \<noteq> CHR ''+''" "?c \<noteq> CHR ''-''"
    by blast
  then show ?thesis
  proof cases
    case move
    have "net_depth (drop (snd (collate_offset t bfcode (bfptr st))) bfcode)
        = net_depth (drop (bfptr st) bfcode)"
      unfolding collate_offset_def by (rule collate_net_depth) simp_all
    then show ?thesis
      using move by (auto simp: translate_char_def Let_def split: prod.splits)
  next
    case change
    have "net_depth (drop (snd (collate_change t bfcode (bfptr st))) bfcode)
        = net_depth (drop (bfptr st) bfcode)"
      unfolding collate_change_def by (rule collate_net_depth) simp_all
    then show ?thesis
      using change by (auto simp: translate_char_def Let_def split: prod.splits)
  next
    case other
    then show ?thesis
      by (simp add: translate_char_def Let_def d net_depth_def)
  qed
qed

lemma translate_loop_indentlevel:
  "indentlevel (translate_loop t bfcode st) = indentlevel st + net_depth (drop (bfptr st) bfcode)"
proof (induction t bfcode st rule: translate_loop.induct)
  case (1 t bfcode st)
  show ?case
  proof (cases "bfptr st < length bfcode")
    case True
    then show ?thesis
      using "1.IH" translate_char_net_depth [of st bfcode t]
      by (subst translate_loop.simps) simp
  next
    case False
    then show ?thesis
      by (subst translate_loop.simps) (simp add: net_depth_def)
  qed
qed

lemma indentlevel_prologue [simp]: "indentlevel (prologue t st) = 1"
  by (simp add: prologue_def Let_def)

lemma bfptr_prologue [simp]: "bfptr (prologue t st) = bfptr st"
  by (simp add: prologue_def Let_def)

lemma indentlevel_epilogue [simp]: "indentlevel (epilogue st) = indentlevel st - 1"
  by (simp add: epilogue_def Let_def)

lemma translate_final_indentlevel: "indentlevel (translate_final t bfcode e) = net_depth bfcode"
  by (simp add: translate_final_def translate_loop_indentlevel)

lemma translate_status:
  "snd (fst (translate t bfcode e))
     = (if count_list bfcode (CHR ''['') = count_list bfcode (CHR '']'') then 0 else 1)"
  by (simp add: translate_def Let_def translate_final_indentlevel net_depth_def)

lemma count_list_replicate: "count_list (replicate n x) y = (if x = y then n else 0)"
  by (induction n) auto

text \<open>
  Claim C5. For every stream, \<open>translate\<close> returns 1 when \<open>indentlevel\<close> is not 0 after
  the whole translation and 0 when it is; that final \<open>indentlevel\<close> is the number of
  \<open>[\<close> minus the number of \<open>]\<close> in the stream, so the status is nonzero exactly when
  the two counts differ, and nothing else about the stream matters. No prefix of a
  stream settles the verdict: every stream has a continuation that is translated with
  status 0 and one that is translated with status 1.
\<close>

theorem translate_status_counts_brackets:
  "snd (fst (translate t bfcode e))
     = (if indentlevel (translate_final t bfcode e) = 0 then 0 else 1)
   \<and> indentlevel (translate_final t bfcode e)
     = int (count_list bfcode (CHR ''['')) - int (count_list bfcode (CHR '']''))
   \<and> (snd (fst (translate t bfcode e)) \<noteq> 0
        \<longleftrightarrow> count_list bfcode (CHR ''['') \<noteq> count_list bfcode (CHR '']''))
   \<and> (\<exists>rest. snd (fst (translate t (bfcode @ rest) e)) = 0)
   \<and> (\<exists>rest. snd (fst (translate t (bfcode @ rest) e)) = 1)"
proof (intro conjI)
  let ?o = "count_list bfcode (CHR ''['')" and ?c = "count_list bfcode (CHR '']'')"
  show "snd (fst (translate t bfcode e))
      = (if indentlevel (translate_final t bfcode e) = 0 then 0 else 1)"
    by (simp add: translate_def Let_def)
  show "indentlevel (translate_final t bfcode e) = int ?o - int ?c"
    by (simp add: translate_final_indentlevel net_depth_def)
  show "snd (fst (translate t bfcode e)) \<noteq> 0 \<longleftrightarrow> ?o \<noteq> ?c"
    by (simp add: translate_status)
  have "snd (fst (translate t (bfcode @ (replicate ?o (CHR '']'') @ replicate ?c (CHR ''[''))) e)) = 0"
    by (simp add: translate_status count_list_replicate)
  then show "\<exists>rest. snd (fst (translate t (bfcode @ rest) e)) = 0" ..
  have "snd (fst (translate t (bfcode @ (replicate ?o (CHR '']'') @ replicate (Suc ?c) (CHR ''[''))) e)) = 1"
    by (simp add: translate_status count_list_replicate)
  then show "\<exists>rest. snd (fst (translate t (bfcode @ rest) e)) = 1" ..
qed

theorem translate_status_counts_brackets_witness:
  "snd (fst (translate T_int ''[[+]'' (new_env 4))) = 1
   \<and> indentlevel (translate_final T_int ''[[+]'' (new_env 4)) = 1
   \<and> snd (fst (translate T_int '']['' (new_env 4))) = 0"
  using translate_status_counts_brackets [of T_int "''[[+]''" "new_env 4"]
    translate_status_counts_brackets [of T_int "''][''" "new_env 4"]
  by simp

section \<open>Capacity of the tape\<close>

text \<open>
  Claim C4, as the specification states it, fails: the constructor has no check, and
  for capacity 0 it returns an environment; with no cells, pointer moves are
  interpreted successfully on it.
\<close>

theorem constructor_accepts_zero_capacity:
  "new_env 0 = \<lparr>tape = [], ptr = 0\<rparr>
   \<and> interpret_code 3 T_int (\<lambda>n. 0) ''><'' (new_env 0) \<lparr>screen = [], keys_read = 0\<rparr>
       = Some (Success, \<lparr>tape = [], ptr = 0\<rparr>, \<lparr>screen = [], keys_read = 0\<rparr>)"
  by code_simp

text \<open>
  Claim C4, amended. Constructing an environment through the translator program with a
  memory size that is not positive fails at setup: called with four arguments, \<open>main\<close>
  writes its diagnostic to the error stream and returns 1, and it calls the constructor
  only with a positive size. The constructor itself performs no check.
\<close>

theorem capacity_checked_by_translator_main:
  "(memsize \<le> 0 \<longrightarrow>
      translator_main_setup 4 memsize
        = Inl (1, ''You must supply a valid positive integer for the size of memory allocated.\<newline>''))
   \<and> (translator_main_setup argc memsize = Inr e \<longrightarrow> argc = 4 \<and> 0 < memsize)"
  by (auto simp: translator_main_setup_def split: if_splits)

theorem capacity_checked_by_translator_main_witness:
  "translator_main_setup 4 0
     = Inl (1, ''You must supply a valid positive integer for the size of memory allocated.\<newline>'')
   \<and> translator_main_setup 4 (- 5)
     = Inl (1, ''You must supply a valid positive integer for the size of memory allocated.\<newline>'')
   \<and> translator_main_setup 4 2 = Inr \<lparr>tape = [0, 0], ptr = 0\<rparr>
   \<and> (0::int) < 2"
proof -
  have "translator_main_setup 4 2 = Inr \<lparr>tape = [0, 0], ptr = 0\<rparr>"
    by code_simp
  then show ?thesis
    using capacity_checked_by_translator_main [where memsize = 0]
      capacity_checked_by_translator_main [where memsize = "- 5"]
      capacity_checked_by_translator_main [where memsize = 2 and argc = 4
        and e = "\<lparr>tape = [0, 0], ptr = 0\<rparr>"]
    by simp
qed

section \<open>Collation of runs\<close>

text \<open>
  What the collation loops compute for every cell type: the number of up characters
  minus the number of down characters of the run, converted to the cell type.
\<close>

lemma wrap_absorb: "wrap t (wrap t a + b) = wrap t (a + b)"
proof (cases "is_signed t")
  case True
  have "(wrap t a + b + 2 ^ (bits t - 1)) mod 2 ^ bits t
      = ((a + 2 ^ (bits t - 1)) mod 2 ^ bits t + b) mod 2 ^ bits t"
    using True by (simp add: wrap_def algebra_simps)
  also have "\<dots> = (a + 2 ^ (bits t - 1) + b) mod 2 ^ bits t"
    by (rule mod_add_left_eq)
  finally show ?thesis
    using True by (simp add: wrap_def algebra_simps)
next
  case False
  then show ?thesis
    by (simp add: wrap_def mod_add_left_eq)
qed

lemma wrap_idem: "wrap t (wrap t a) = wrap t a"
  using wrap_absorb [of t a 0] by simp

lemma collate_total:
  assumes "up \<noteq> down" and "wrap t v = v"
  shows "fst (collate t up down bfcode k v)
      = wrap t (v + int (count_list (take (snd (collate t up down bfcode k v) - k) (drop k bfcode)) up)
                  - int (count_list (take (snd (collate t up down bfcode k v) - k) (drop k bfcode)) down))"
  using assms
proof (induction t up down bfcode k v rule: collate.induct)
  case (1 t up down bfcode k v)
  show ?case
  proof (cases "k < length bfcode \<and> (bfcode ! k = up \<or> bfcode ! k = down)")
    case False
    then have "collate t up down bfcode k v = (v, k)"
      by (subst collate.simps) auto
    then show ?thesis
      using "1.prems" by simp
  next
    case True
    define w where "w = (if bfcode ! k = up then wrap t (v + 1) else wrap t (v - 1))"
    define r where "r = collate t up down bfcode (k + 1) w"
    have step: "collate t up down bfcode k v = r"
      using True "1.prems"(1) unfolding r_def w_def by (subst collate.simps) auto
    have w: "wrap t w = w"
      by (simp add: w_def wrap_idem)
    have ge: "k + 1 \<le> snd r"
      unfolding r_def by (rule collate_bfsearchptr_ge)
    have IH: "fst r = wrap t (w + int (count_list (take (snd r - (k + 1)) (drop (k + 1) bfcode)) up)
                  - int (count_list (take (snd r - (k + 1)) (drop (k + 1) bfcode)) down))"
    proof (cases "bfcode ! k = up")
      case up: True
      then show ?thesis
        using "1.IH"(1) [OF _ "1.prems"(1)] True w unfolding r_def w_def by simp
    next
      case not_up: False
      then show ?thesis
        using "1.IH"(2) [OF _ _ "1.prems"(1)] True w unfolding r_def w_def by simp
    qed
    have seg: "take (snd r - k) (drop k bfcode) = bfcode ! k # take (snd r - (k + 1)) (drop (k + 1) bfcode)"
    proof -
      have "drop k bfcode = bfcode ! k # drop (k + 1) bfcode"
        using True by (simp add: Cons_nth_drop_Suc)
      moreover have "snd r - k = Suc (snd r - (k + 1))"
        using ge by simp
      ultimately show ?thesis by simp
    qed
    let ?U = "int (count_list (take (snd r - (k + 1)) (drop (k + 1) bfcode)) up)"
    let ?D = "int (count_list (take (snd r - (k + 1)) (drop (k + 1) bfcode)) down)"
    have "wrap t (w + ?U - ?D) = wrap t (v + int (count_list (take (snd r - k) (drop k bfcode)) up)
        - int (count_list (take (snd r - k) (drop k bfcode)) down))"
    proof (cases "bfcode ! k = up")
      case up: True
      have "wrap t (w + ?U - ?D) = wrap t (wrap t (v + 1) + (?U - ?D))"
        using up by (simp add: w_def algebra_simps)
      also have "\<dots> = wrap t (v + 1 + (?U - ?D))"
        by (rule wrap_absorb)
      finally show ?thesis
        using up "1.prems"(1) by (simp add: seg algebra_simps)
    next
      case not_up: False
      with True have down: "bfcode ! k = down" by simp
      have "wrap t (w + ?U - ?D) = wrap t (wrap t (v - 1) + (?U - ?D))"
        using not_up by (simp add: w_def algebra_simps)
      also have "\<dots> = wrap t (v - 1 + (?U - ?D))"
        by (rule wrap_absorb)
      finally show ?thesis
        using down not_up "1.prems"(1) by (simp add: seg algebra_simps)
    qed
    then show ?thesis
      using IH step by simp
  qed
qed

lemma wrap_zero: "wrap t 0 = 0"
  by (cases t) (simp_all add: wrap_def)

lemma collate_offset_total:
  "fst (collate_offset t bfcode k)
     = wrap t (int (count_list (take (snd (collate_offset t bfcode k) - k) (drop k bfcode)) (CHR ''>''))
               - int (count_list (take (snd (collate_offset t bfcode k) - k) (drop k bfcode)) (CHR ''<'')))"
  unfolding collate_offset_def
  using collate_total [of "CHR ''>''" "CHR ''<''" t 0 bfcode k] by (simp add: wrap_zero)

lemma collate_change_total:
  "fst (collate_change t bfcode k)
     = wrap t (int (count_list (take (snd (collate_change t bfcode k) - k) (drop k bfcode)) (CHR ''+''))
               - int (count_list (take (snd (collate_change t bfcode k) - k) (drop k bfcode)) (CHR ''-'')))"
  unfolding collate_change_def
  using collate_total [of "CHR ''+''" "CHR ''-''" t 0 bfcode k] by (simp add: wrap_zero)

text \<open>
  Claim C2 at the instance \<open>unsigned char\<close> and the stream \<open><\<close>: the run total is
  kept in the cell type, so one \<open><\<close> collates to 255 and the statement written is
  \<open>i += 255;\<close>, where the interpreter moves the pointer one cell to the left. Likewise
  128 times \<open>>\<close> with \<open>char\<close> cells is written as \<open>i -= 128;\<close>, and 256 times \<open>>\<close> with
  \<open>unsigned char\<close> cells writes no statement at all.
\<close>

theorem pointer_run_collated_in_cell_type:
  "collate_offset T_uchar ''<'' 0 = (255, 1)
   \<and> offset_stmt 255 = ''i += 255;''
   \<and> fst (fst (translate T_uchar ''<'' (new_env 10))) =
       ''#include <stdio.h>\<newline>#include <stdlib.h>\<newline>#include <stddef.h>\<newline>#include ''
       @ [CHR 0x22] @ ''conio.h'' @ [CHR 0x22] @ ''\<newline>\<newline>int main() {\<newline>'' @ [CHR 0x09] @ ''\<newline>''
       @ [CHR 0x09] @ ''unsigned char *tape = (unsigned char *)calloc(10, sizeof(unsigned char));\<newline>''
       @ [CHR 0x09] @ ''ptrdiff_t i = 0;\<newline>\<newline>''
       @ [CHR 0x09] @ ''i += 255;\<newline>''
       @ [CHR 0x09] @ ''\<newline>'' @ [CHR 0x09] @ ''free(tape);\<newline>'' @ [CHR 0x09] @ ''_getch();\<newline>''
       @ [CHR 0x09] @ ''\<newline>'' @ [CHR 0x09] @ ''return 0;\<newline>'' @ [CHR 0x09] @ ''\<newline>}\<newline>''
   \<and> step T_uchar (\<lambda>n. 0) ''<'' (new_env 10) \<lparr>screen = [], keys_read = 0\<rparr> 0
       = Continue \<lparr>tape = replicate 10 0, ptr = - 1\<rparr> \<lparr>screen = [], keys_read = 0\<rparr> 1
   \<and> fst (collate_offset T_char (replicate 128 (CHR ''>'')) 0) = - 128
   \<and> offset_stmt (- 128) = ''i -= 128;''
   \<and> fst (collate_offset T_uchar (replicate 256 (CHR ''>'')) 0) = 0
   \<and> offset_stmt 0 = []"
  by code_simp

section \<open>The translated program and the interpreter\<close>

text \<open>
  Claim C1 at \<open>unsigned char\<close> cells, a tape of 300 cells and the stream \<open>+>+<.\<close>,
  with the translated text written to the C file as the translator program writes it.
  The run \<open><\<close> is collated in the cell type and written as \<open>i += 255;\<close>, so the
  translated program ends with its index at cell 256 and prints that cell, which is 0,
  where the interpreter has moved back to cell 0 and prints its value 1.
\<close>

theorem translated_program_prints_another_cell:
  "fprintf_ccode (fst (fst (translate T_uchar ''+>+<.'' (new_env 300)))) =
       ''#include <stdio.h>\<newline>#include <stdlib.h>\<newline>#include <stddef.h>\<newline>#include ''
       @ [CHR 0x22] @ ''conio.h'' @ [CHR 0x22] @ ''\<newline>\<newline>int main() {\<newline>'' @ [CHR 0x09] @ ''\<newline>''
       @ [CHR 0x09] @ ''unsigned char *tape = (unsigned char *)calloc(300, sizeof(unsigned char));\<newline>''
       @ [CHR 0x09] @ ''ptrdiff_t i = 0;\<newline>\<newline>''
       @ [CHR 0x09] @ ''tape[i]++;\<newline>''
       @ [CHR 0x09] @ ''i++; tape[i]++;\<newline>''
       @ [CHR 0x09] @ ''i += 255;\<newline>''
       @ [CHR 0x09] @ ''printf('' @ [CHR 0x22] @ ''%c'' @ [CHR 0x22] @ '', tape[i]);\<newline>''
       @ [CHR 0x09] @ ''\<newline>'' @ [CHR 0x09] @ ''free(tape);\<newline>'' @ [CHR 0x09] @ ''_getch();\<newline>''
       @ [CHR 0x09] @ ''\<newline>'' @ [CHR 0x09] @ ''return 0;\<newline>'' @ [CHR 0x09] @ ''\<newline>}\<newline>''
   \<and> snd (fst (translate T_uchar ''+>+<.'' (new_env 300))) = 0
   \<and> c_statements (fprintf_ccode (fst (fst (translate T_uchar ''+>+<.'' (new_env 300)))))
       = [Main_open, Cell_add 1, Idx_add 1, Cell_add 1, Idx_add 255, Printf_cell ''%c'',
          Getch_wait, Return_stmt, Block_close]
   \<and> map_option (\<lambda>(v, m, con). (v, ptr m, screen con))
        (run_c 10 T_uchar (\<lambda>n. 0)
          (c_statements (fprintf_ccode (fst (fst (translate T_uchar ''+>+<.'' (new_env 300))))))
          (new_env 300) \<lparr>screen = [], keys_read = 0\<rparr> 0)
       = Some (Success, 256, [CHR 0x00])
   \<and> map_option (\<lambda>(v, e, con). (v, ptr e, screen con))
        (interpret_code 10 T_uchar (\<lambda>n. 0) ''+>+<.'' (new_env 300) \<lparr>screen = [], keys_read = 0\<rparr>)
       = Some (Success, 0, [CHR 0x01])"
  by code_simp

end
